theory Spec2Isabelle
  imports Complex_Main
begin

section \<open>Events and the finder predicates of \<open>PtbApplication\<close>\<close>

text \<open>
  A pygame event is modelled by its type together with the attribute that the finders
  read for that type: \<open>event.key\<close> for \<open>KEYDOWN\<close>, \<open>event.pin\<close> for
  \<open>BUTTON_DOWN\<close>, \<open>event.size\<close> for \<open>VIDEORESIZE\<close>. The keys are the pygame
  constants the module names, plus any other key code.
\<close>

datatype key = K_ESCAPE | K_f | K_p | K_e | K_LEFT | K_RIGHT | K_other nat

datatype event =
    QUIT
  | KEYDOWN key
  | BUTTON_DOWN nat
  | VIDEORESIZE "nat \<times> nat"
  | OTHER_EVENT nat

text \<open>
  \<open>self.button_picture = PtbButton(11, ...)\<close> and \<open>self.button_print = PtbButton(13, ...)\<close>:
  the comparison \<open>event.pin == self.button_picture\<close> is taken to compare pin numbers.
\<close>

definition button_picture :: nat where
  "button_picture = 11"

definition button_print :: nat where
  "button_print = 13"

fun quit_pred :: "event \<Rightarrow> bool" where
  "quit_pred QUIT = True"
| "quit_pred (KEYDOWN k) = (k = K_ESCAPE)"
| "quit_pred _ = False"

text \<open>The flag \<open>ctrl\<close> is the value of \<open>pygame.key.get_mods() & pygame.KMOD_CTRL\<close>.\<close>

fun fullscreen_pred :: "bool \<Rightarrow> event \<Rightarrow> bool" where
  "fullscreen_pred ctrl (KEYDOWN k) = (k = K_f \<and> ctrl)"
| "fullscreen_pred ctrl _ = False"

fun picture_pred :: "event \<Rightarrow> bool" where
  "picture_pred (KEYDOWN k) = (k = K_p)"
| "picture_pred (BUTTON_DOWN pin) = (pin = button_picture)"
| "picture_pred _ = False"

fun print_pred :: "bool \<Rightarrow> event \<Rightarrow> bool" where
  "print_pred ctrl (KEYDOWN k) = (k = K_e \<and> ctrl)"
| "print_pred ctrl (BUTTON_DOWN pin) = (pin = button_print)"
| "print_pred ctrl _ = False"

fun resize_pred :: "event \<Rightarrow> bool" where
  "resize_pred (VIDEORESIZE sz) = True"
| "resize_pred _ = False"

fun choice_pred :: "event \<Rightarrow> bool" where
  "choice_pred (KEYDOWN k) = (k = K_LEFT \<or> k = K_RIGHT)"
| "choice_pred (BUTTON_DOWN pin) = (pin = button_picture)"
| "choice_pred _ = False"

text \<open>
  Each finder is the loop \<open>for event in events: if <predicate>: return event\<close>, falling
  through to \<open>None\<close>: the first matching event of the batch. An event that a finder
  returns is true as a Python condition (its type is not \<open>NOEVENT\<close>), so the callers'
  tests \<open>if self.find_..._event(events)\<close> are tests for a result other than \<open>None\<close>.
\<close>

definition find_quit_event :: "event list \<Rightarrow> event option" where
  "find_quit_event events = find quit_pred events"

definition find_fullscreen_event :: "bool \<Rightarrow> event list \<Rightarrow> event option" where
  "find_fullscreen_event ctrl events = find (fullscreen_pred ctrl) events"

definition find_picture_event :: "event list \<Rightarrow> event option" where
  "find_picture_event events = find picture_pred events"

definition find_print_event :: "bool \<Rightarrow> event list \<Rightarrow> event option" where
  "find_print_event ctrl events = find (print_pred ctrl) events"

definition find_resize_event :: "event list \<Rightarrow> event option" where
  "find_resize_event events = find resize_pred events"

definition find_choice_event :: "event list \<Rightarrow> event option" where
  "find_choice_event events = find choice_pred events"

section \<open>Session context, collaborators and environment\<close>

text \<open>The configuration keys read by the states, as returned by the typed getters.\<close>

record config =
  picture_captures :: int
  window_preview_countdown :: bool
  window_preview_delay :: int
  window_flash :: bool
  picture_footer_text1 :: string
  picture_footer_text2 :: string
  picture_bg_color :: "nat \<times> nat \<times> nat"
  picture_text_color :: "nat \<times> nat \<times> nat"

text \<open>
  The image returned by \<open>generate_picture_from_files\<close> is kept as the arguments it was
  composed from.
\<close>

datatype image =
  Picture "string list" "string list" "nat \<times> nat \<times> nat" "nat \<times> nat \<times> nat"

datatype led = Led_picture | Led_print

text \<open>
  Every call on a collaborator (window, lights, camera, printer, file system, sleep) is
  recorded, in order, in the \<open>trace\<close> of the application.
\<close>

datatype action =
    Show_intro "image option"
  | Show_choice "int option"
  | Set_picture_number int "int option"
  | Show_countdown int
  | Sleep real
  | Flash nat
  | Show_wait
  | Show_print "image option"
  | Show_finished
  | Toggle_fullscreen
  | Resize "nat \<times> nat"
  | Switch_on led
  | Switch_off led
  | Blink led
  | Makedirs string
  | Camera_preview
  | Camera_capture string
  | Camera_stop_preview
  | Save_picture image string
  | Print_file "string option"
  | GPIO_cleanup
  | Camera_quit
  | Printer_quit
  | Pygame_quit

datatype state =
  StateWait | StateChoose | StateCapture | StateProcessing | StatePrint | StateFinish

text \<open>
  The application object together with the attributes of its state objects
  (\<open>StateChoose.timer\<close>, \<open>StatePrint.timer\<close>, \<open>StatePrint.printed\<close>) and the active
  state of its state machine. A timer is the time of its last \<open>start()\<close>, \<open>None\<close>
  before the first one.
\<close>

record app =
  config :: config
  savedir :: string
  dirname :: "string option"
  captures :: "string list"
  max_captures :: "int option"
  previous_picture :: "image option"
  previous_picture_file :: "string option"
  choose_timer :: "real option"
  print_timer :: "real option"
  printed :: bool
  active_state :: "state option"
  trace :: "action list"

text \<open>
  What one tick of the loop reads from outside: the pending events as
  \<open>pygame.event.get()\<close> returns them, the state of the control key, the clock as read by
  a transition check and as read by an entry hook, the value of \<open>time.strftime\<close>, what
  the printer reports, and whether the calls that spec section 7 lists as failing
  (directory creation, capture, print) raise in this tick.
\<close>

record env =
  pygame_event_get :: "event list"
  ctrl_pressed :: bool
  clock_check :: real
  clock_entry :: real
  strftime :: string
  printer_is_installed :: bool
  makedirs_fails :: bool
  capture_fails :: bool
  print_fails :: bool

datatype error =
    UnknownState string
  | TypeError
  | ValueError
  | OSError
  | CameraError
  | PrinterError

text \<open>A hook either completes or raises; in both cases the application is left as mutated so far.\<close>

datatype outcome = Done app | Raised error app

fun and_then :: "outcome \<Rightarrow> (app \<Rightarrow> outcome) \<Rightarrow> outcome" where
  "and_then (Done a) f = f a"
| "and_then (Raised x a) f = Raised x a"

definition emit :: "app \<Rightarrow> action list \<Rightarrow> app" where
  "emit a xs = a\<lparr>trace := trace a @ xs\<rparr>"

text \<open>Python truth value of a string-or-None attribute.\<close>

fun truthy :: "string option \<Rightarrow> bool" where
  "truthy None = False"
| "truthy (Some s) = (s \<noteq> [])"

text \<open>\<open>os.path.join\<close> with two arguments, on a POSIX system.\<close>

definition osp_join :: "string \<Rightarrow> string \<Rightarrow> string" where
  "osp_join a b =
     (if take 1 b = ''/'' then b
      else if a = [] \<or> take 1 (rev a) = ''/'' then a @ b
      else a @ ''/'' @ b)"

text \<open>\<open>"{:03}".format(n)\<close> for a natural number: decimal digits, zero-padded to width 3.\<close>

definition digit_char :: "nat \<Rightarrow> char" where
  "digit_char d = char_of (48 + d)"

fun decimal :: "nat \<Rightarrow> string" where
  "decimal n = (if n < 10 then [digit_char n] else decimal (n div 10) @ [digit_char (n mod 10)])"

definition format_03 :: "nat \<Rightarrow> string" where
  "format_03 n = replicate (3 - length (decimal n)) (CHR ''0'') @ decimal n"

section \<open>Timer and State base class\<close>

text \<open>
  Modelled from the spec: \<open>PoolingTimer\<close> (module \<open>pibooth.utils\<close>, spec section 4.1).
  \<open>start()\<close> records the current time; \<open>is_timeout()\<close> is true once the fixed duration
  has elapsed since the last \<open>start()\<close>. The spec says nothing of a timer that was never
  started; there the subtraction from \<open>None\<close> is taken to raise.
\<close>

definition timer_start :: "real \<Rightarrow> real option" where
  "timer_start now = Some now"

definition is_timeout :: "real \<Rightarrow> real option \<Rightarrow> real \<Rightarrow> error + bool" where
  "is_timeout timeout t now =
     (case t of None \<Rightarrow> Inl TypeError | Some t0 \<Rightarrow> Inr (timeout \<le> now - t0))"

text \<open>The two arguments of each \<open>State.__init__(self, name, next_name)\<close> call.\<close>

fun name :: "state \<Rightarrow> string" where
  "name StateWait = ''wait''"
| "name StateChoose = ''choose''"
| "name StateCapture = ''capture''"
| "name StateProcessing = ''processing''"
| "name StatePrint = ''print''"
| "name StateFinish = ''finish''"

fun next_name :: "state \<Rightarrow> string" where
  "next_name StateWait = ''choose''"
| "next_name StateChoose = ''capture''"
| "next_name StateCapture = ''processing''"
| "next_name StateProcessing = ''print''"
| "next_name StatePrint = ''finish''"
| "next_name StateFinish = ''wait''"

text \<open>
  Modelled from the spec: the hooks of the base class \<open>State\<close> (module
  \<open>pibooth.states\<close>, spec section 3). Entry, per-tick and exit hooks do nothing; the
  transition check passes through to the default successor on every tick.
\<close>

definition State_entry_actions :: "app \<Rightarrow> env \<Rightarrow> outcome" where
  "State_entry_actions a e = Done a"

definition State_do_actions :: "app \<Rightarrow> event list \<Rightarrow> env \<Rightarrow> outcome" where
  "State_do_actions a events e = Done a"

definition State_exit_actions :: "app \<Rightarrow> outcome" where
  "State_exit_actions a = Done a"

definition State_validate_transition :: "state \<Rightarrow> error + string option" where
  "State_validate_transition s = Inr (Some (next_name s))"

section \<open>The six workflow states\<close>

text \<open>
  Each hook takes the application and what it reads from the environment, and returns
  the application it leaves behind. Calls to the logger and the \<open>timeit\<close> context
  manager, which only log, are left out. An operation on an attribute that is still
  \<open>None\<close> (a comparison with \<open>max_captures\<close>, a path join on \<open>dirname\<close>) raises
  \<open>TypeError\<close>, as in Python 3.
\<close>

subsection \<open>StateWait\<close>

definition StateWait_entry_actions :: "app \<Rightarrow> env \<Rightarrow> outcome" where
  "StateWait_entry_actions a e = Done (emit a [Show_intro (previous_picture a)])"

definition StateWait_do_actions :: "app \<Rightarrow> event list \<Rightarrow> env \<Rightarrow> outcome" where
  "StateWait_do_actions a events e =
     (if find_print_event (ctrl_pressed e) events \<noteq> None \<and> truthy (previous_picture_file a)
         \<and> printer_is_installed e
      then (if print_fails e then Raised PrinterError (emit a [Blink Led_print])
            else Done (emit a [Blink Led_print, Print_file (previous_picture_file a),
                               Sleep 0.5, Switch_on Led_print]))
      else Done a)"

definition StateWait_exit_actions :: "app \<Rightarrow> outcome" where
  "StateWait_exit_actions a = Done (emit a [Switch_off Led_print])"

definition StateWait_validate_transition :: "app \<Rightarrow> event list \<Rightarrow> env \<Rightarrow> error + string option" where
  "StateWait_validate_transition a events e =
     Inr (if find_picture_event events \<noteq> None then Some (next_name StateWait) else None)"

subsection \<open>StateChoose\<close>

definition StateChoose_timeout :: real where
  "StateChoose_timeout = 8"

definition StateChoose_entry_actions :: "app \<Rightarrow> env \<Rightarrow> outcome" where
  "StateChoose_entry_actions a e =
     (let a1 = emit a [Switch_on Led_picture];
          a2 = a1\<lparr>max_captures := Some (picture_captures (config a1))\<rparr>;
          a3 = emit a2 [Show_choice (max_captures a2)]
      in Done (a3\<lparr>choose_timer := timer_start (clock_entry e)\<rparr>))"

definition StateChoose_do_actions :: "app \<Rightarrow> event list \<Rightarrow> env \<Rightarrow> outcome" where
  "StateChoose_do_actions a events e =
     (let event = find_choice_event events;
          a1 = (if event \<noteq> None \<and> max_captures a \<noteq> Some 1 then a\<lparr>max_captures := Some 1\<rparr>
                else if event \<noteq> None \<and> max_captures a \<noteq> Some 4 then a\<lparr>max_captures := Some 4\<rparr>
                else a)
      in Done (emit a1 [Show_choice (max_captures a1)]))"

definition StateChoose_validate_transition :: "app \<Rightarrow> event list \<Rightarrow> env \<Rightarrow> error + string option" where
  "StateChoose_validate_transition a events e =
     (case is_timeout StateChoose_timeout (choose_timer a) (clock_check e) of
        Inl x \<Rightarrow> Inl x
      | Inr b \<Rightarrow> Inr (if b then Some (next_name StateChoose) else None))"

subsection \<open>StateCapture\<close>

definition StateCapture_entry_actions :: "app \<Rightarrow> env \<Rightarrow> outcome" where
  "StateCapture_entry_actions a e =
     (let a1 = a\<lparr>previous_picture := None\<rparr>;
          a2 = a1\<lparr>previous_picture_file := None\<rparr>;
          a3 = a2\<lparr>dirname := Some (osp_join (savedir a2) (strftime e))\<rparr>
      in if makedirs_fails e then Raised OSError a3
         else Done (emit a3 [Makedirs (osp_join (savedir a2) (strftime e)), Camera_preview]))"

text \<open>
  When the countdown display is off the hook pauses with \<open>time.sleep\<close>, which raises
  \<open>ValueError\<close> for a negative number of seconds, before the light is switched on and
  the picture is taken; for every other delay the pause is taken to return. The window
  call \<open>show_countdown\<close> is taken to return for every delay.
\<close>

definition StateCapture_do_actions :: "app \<Rightarrow> event list \<Rightarrow> env \<Rightarrow> outcome" where
  "StateCapture_do_actions a events e =
     (let a1 = emit a [Blink Led_picture,
                       Set_picture_number (int (length (captures a)) + 1) (max_captures a)]
      in and_then
           (if window_preview_countdown (config a1)
            then Done (emit a1 [Show_countdown (window_preview_delay (config a1))])
            else if window_preview_delay (config a1) < 0 then Raised ValueError a1
            else Done (emit a1 [Sleep (real_of_int (window_preview_delay (config a1)))]))
           (\<lambda>a2.
              let a3 = emit a2 [Switch_on Led_picture];
                  a4 = (if window_flash (config a3) then emit a3 [Flash 2] else a3)
              in case dirname a4 of
                   None \<Rightarrow> Raised TypeError a4
                 | Some d \<Rightarrow>
                     (let image_file_name =
                            osp_join d (''ptb'' @ format_03 (length (captures a4)) @ ''.jpg'')
                      in if capture_fails e then Raised CameraError a4
                         else Done ((emit a4 [Camera_capture image_file_name])
                                      \<lparr>captures := captures a4 @ [image_file_name]\<rparr>))))"

definition StateCapture_exit_actions :: "app \<Rightarrow> outcome" where
  "StateCapture_exit_actions a = Done (emit a [Camera_stop_preview, Switch_off Led_picture])"

definition StateCapture_validate_transition :: "app \<Rightarrow> event list \<Rightarrow> env \<Rightarrow> error + string option" where
  "StateCapture_validate_transition a events e =
     (case max_captures a of
        None \<Rightarrow> Inl TypeError
      | Some m \<Rightarrow> Inr (if int (length (captures a)) \<ge> m then Some (next_name StateCapture) else None))"

subsection \<open>StateProcessing\<close>

definition StateProcessing_entry_actions :: "app \<Rightarrow> env \<Rightarrow> outcome" where
  "StateProcessing_entry_actions a e =
     (let a1 = emit a [Show_wait];
          footer_texts = [picture_footer_text1 (config a1), picture_footer_text2 (config a1)];
          bg_color = picture_bg_color (config a1);
          text_color = picture_text_color (config a1);
          picture = Picture (captures a1) footer_texts bg_color text_color;
          a2 = a1\<lparr>previous_picture := Some picture\<rparr>
      in case dirname a2 of
           None \<Rightarrow> Raised TypeError a2
         | Some d \<Rightarrow>
             (let a3 = a2\<lparr>previous_picture_file := Some (osp_join d (strftime e @ ''_ptb.jpg''))\<rparr>
              in Done (emit a3 [Save_picture picture (osp_join d (strftime e @ ''_ptb.jpg''))])))"

definition StateProcessing_exit_actions :: "app \<Rightarrow> outcome" where
  "StateProcessing_exit_actions a = Done (a\<lparr>captures := []\<rparr>)"

definition StateProcessing_validate_transition :: "app \<Rightarrow> event list \<Rightarrow> env \<Rightarrow> error + string option" where
  "StateProcessing_validate_transition a events e =
     (if printer_is_installed e then Inr (Some (next_name StateProcessing))
      else Inr (Some ''finish''))"

subsection \<open>StatePrint\<close>

definition StatePrint_timeout :: real where
  "StatePrint_timeout = 5"

definition StatePrint_entry_actions :: "app \<Rightarrow> env \<Rightarrow> outcome" where
  "StatePrint_entry_actions a e =
     (let a1 = emit a [Show_print (previous_picture a), Switch_on Led_print]
      in Done (a1\<lparr>print_timer := timer_start (clock_entry e)\<rparr>))"

definition StatePrint_do_actions :: "app \<Rightarrow> event list \<Rightarrow> env \<Rightarrow> outcome" where
  "StatePrint_do_actions a events e =
     (if find_print_event (ctrl_pressed e) events \<noteq> None \<and> truthy (previous_picture_file a)
      then (if print_fails e then Raised PrinterError (emit a [Blink Led_print])
            else Done ((emit a [Blink Led_print, Print_file (previous_picture_file a),
                                Sleep 0.5, Switch_on Led_print])\<lparr>printed := True\<rparr>))
      else Done a)"

definition StatePrint_validate_transition :: "app \<Rightarrow> event list \<Rightarrow> env \<Rightarrow> error + string option" where
  "StatePrint_validate_transition a events e =
     (case is_timeout StatePrint_timeout (print_timer a) (clock_check e) of
        Inl x \<Rightarrow> Inl x
      | Inr b \<Rightarrow> Inr (if b \<or> printed a then Some (next_name StatePrint) else None))"

subsection \<open>StateFinish\<close>

definition StateFinish_entry_actions :: "app \<Rightarrow> env \<Rightarrow> outcome" where
  "StateFinish_entry_actions a e = Done (emit a [Show_finished, Sleep 0.5])"

section \<open>State machine\<close>

text \<open>Method dispatch on the class of the state object; a hook a class does not define is the base one.\<close>

fun entry_actions :: "state \<Rightarrow> app \<Rightarrow> env \<Rightarrow> outcome" where
  "entry_actions StateWait = StateWait_entry_actions"
| "entry_actions StateChoose = StateChoose_entry_actions"
| "entry_actions StateCapture = StateCapture_entry_actions"
| "entry_actions StateProcessing = StateProcessing_entry_actions"
| "entry_actions StatePrint = StatePrint_entry_actions"
| "entry_actions StateFinish = StateFinish_entry_actions"

fun do_actions :: "state \<Rightarrow> app \<Rightarrow> event list \<Rightarrow> env \<Rightarrow> outcome" where
  "do_actions StateWait = StateWait_do_actions"
| "do_actions StateChoose = StateChoose_do_actions"
| "do_actions StateCapture = StateCapture_do_actions"
| "do_actions StateProcessing = State_do_actions"
| "do_actions StatePrint = StatePrint_do_actions"
| "do_actions StateFinish = State_do_actions"

fun exit_actions :: "state \<Rightarrow> app \<Rightarrow> outcome" where
  "exit_actions StateWait = StateWait_exit_actions"
| "exit_actions StateChoose = State_exit_actions"
| "exit_actions StateCapture = StateCapture_exit_actions"
| "exit_actions StateProcessing = StateProcessing_exit_actions"
| "exit_actions StatePrint = State_exit_actions"
| "exit_actions StateFinish = State_exit_actions"

fun validate_transition :: "state \<Rightarrow> app \<Rightarrow> event list \<Rightarrow> env \<Rightarrow> error + string option" where
  "validate_transition StateWait a events e = StateWait_validate_transition a events e"
| "validate_transition StateChoose a events e = StateChoose_validate_transition a events e"
| "validate_transition StateCapture a events e = StateCapture_validate_transition a events e"
| "validate_transition StateProcessing a events e = StateProcessing_validate_transition a events e"
| "validate_transition StatePrint a events e = StatePrint_validate_transition a events e"
| "validate_transition StateFinish a events e = State_validate_transition StateFinish"

text \<open>
  The mapping from name to state built by the six \<open>add_state\<close> calls of
  \<open>PtbApplication.__init__\<close>.
\<close>

definition states :: "string \<Rightarrow> state option" where
  "states = map_of (map (\<lambda>s. (name s, s))
     [StateWait, StateChoose, StateCapture, StateProcessing, StatePrint, StateFinish])"

text \<open>
  Modelled from the spec: \<open>StateMachine.set_state\<close> as \<open>main_loop\<close> calls it at startup
  (module \<open>pibooth.states\<close>, spec section 4.2, \<open>set_initial\<close>). It sets the active state
  and runs its entry hook, without any exit hook, and fails with \<open>UnknownState\<close> if the
  name is not registered.
\<close>

definition set_state :: "app \<Rightarrow> string \<Rightarrow> env \<Rightarrow> outcome" where
  "set_state a n e =
     (case states n of
        None \<Rightarrow> Raised (UnknownState n) a
      | Some s \<Rightarrow> entry_actions s (a\<lparr>active_state := Some s\<rparr>) e)"

text \<open>
  Modelled from the spec: \<open>StateMachine.process\<close> (module \<open>pibooth.states\<close>, spec
  section 4.2). It runs the per-tick action of the active state, then its transition
  check; if the check returns a name it runs the exit hook of the active state, updates
  the active state and runs the entry hook of the new one, failing with \<open>UnknownState\<close>
  if the name is not registered. The spec has an active state at every call; with none,
  the model does nothing.
\<close>

definition process :: "app \<Rightarrow> event list \<Rightarrow> env \<Rightarrow> outcome" where
  "process a events e =
     (case active_state a of
        None \<Rightarrow> Done a
      | Some s \<Rightarrow>
          and_then (do_actions s a events e) (\<lambda>a1.
            case validate_transition s a1 events e of
              Inl x \<Rightarrow> Raised x a1
            | Inr None \<Rightarrow> Done a1
            | Inr (Some n) \<Rightarrow>
                and_then (exit_actions s a1) (\<lambda>a2.
                  case states n of
                    None \<Rightarrow> Raised (UnknownState n) a2
                  | Some s' \<Rightarrow> entry_actions s' (a2\<lparr>active_state := Some s'\<rparr>) e)))"

section \<open>PtbApplication\<close>

text \<open>
  The attributes set by \<open>PtbApplication.__init__\<close> and by the constructors of the states
  it registers; \<open>dir\<close> is the expanded save directory.
\<close>

definition PtbApplication_init :: "config \<Rightarrow> string \<Rightarrow> app" where
  "PtbApplication_init cfg dir =
     \<lparr>config = cfg, savedir = dir, dirname = None, captures = [], max_captures = None,
      previous_picture = None, previous_picture_file = None,
      choose_timer = None, print_timer = None, printed = False,
      active_state = None, trace = []\<rparr>"

text \<open>
  The loop of \<open>main_loop\<close>, run on the inputs of finitely many ticks. \<open>Running\<close> is a loop
  that has consumed all of them and goes on, \<open>Stopped\<close> one left by \<open>break\<close>, \<open>Failed\<close>
  one left by an exception.
\<close>

datatype loop_state = Running app | Stopped app | Failed error app

definition tick :: "app \<Rightarrow> env \<Rightarrow> loop_state" where
  "tick a e =
     (let events = rev (pygame_event_get e)
      in if find_quit_event events \<noteq> None then Stopped a
         else
           (let a1 = (if find_fullscreen_event (ctrl_pressed e) events \<noteq> None
                      then emit a [Toggle_fullscreen] else a);
                a2 = (case find_resize_event events of
                        Some (VIDEORESIZE sz) \<Rightarrow> emit a1 [Resize sz]
                      | _ \<Rightarrow> a1)
            in case process a2 events e of
                 Done a3 \<Rightarrow> Running a3
               | Raised x a3 \<Rightarrow> Failed x a3))"

fun loop :: "app \<Rightarrow> env list \<Rightarrow> loop_state" where
  "loop a [] = Running a"
| "loop a (e # es) =
     (case tick a e of
        Running a' \<Rightarrow> loop a' es
      | Stopped a' \<Rightarrow> Stopped a'
      | Failed x a' \<Rightarrow> Failed x a')"

definition cleanup_actions :: "action list" where
  "cleanup_actions =
     [Switch_off Led_picture, Switch_off Led_print, GPIO_cleanup, Camera_quit, Printer_quit,
      Pygame_quit]"

definition cleanup :: "app \<Rightarrow> app" where
  "cleanup a = emit a cleanup_actions"

text \<open>The \<open>finally\<close> clause runs when the \<open>try\<close> block is left, by \<open>break\<close> or by an exception.\<close>

fun try_finally :: "loop_state \<Rightarrow> loop_state" where
  "try_finally (Running a) = Running a"
| "try_finally (Stopped a) = Stopped (cleanup a)"
| "try_finally (Failed x a) = Failed x (cleanup a)"

text \<open>\<open>e0\<close> is the environment at the initial \<open>set_state('wait')\<close>, \<open>es\<close> that of the ticks.\<close>

definition main_loop :: "app \<Rightarrow> env \<Rightarrow> env list \<Rightarrow> loop_state" where
  "main_loop a e0 es =
     try_finally (case set_state a ''wait'' e0 of
                Raised x a1 \<Rightarrow> Failed x a1
              | Done a1 \<Rightarrow> loop a1 es)"

fun app_of :: "loop_state \<Rightarrow> app" where
  "app_of (Running a) = a"
| "app_of (Stopped a) = a"
| "app_of (Failed x a) = a"

fun outcome_app :: "outcome \<Rightarrow> app" where
  "outcome_app (Done a) = a"
| "outcome_app (Raised x a) = a"

subsection \<open>Example inputs\<close>

text \<open>A configuration, an application and tick inputs on which the properties below are exercised.\<close>

definition example_config :: "int \<Rightarrow> config" where
  "example_config n =
     \<lparr>picture_captures = n, window_preview_countdown = False, window_preview_delay = 3,
      window_flash = True, picture_footer_text1 = ''Footer 1'', picture_footer_text2 = ''Footer 2'',
      picture_bg_color = (255, 255, 255), picture_text_color = (0, 0, 0)\<rparr>"

definition example_app :: "int \<Rightarrow> app" where
  "example_app n = PtbApplication_init (example_config n) ''/home/pi/Pictures''"

definition example_env :: "event list \<Rightarrow> real \<Rightarrow> string \<Rightarrow> bool \<Rightarrow> env" where
  "example_env evs t stamp installed =
     \<lparr>pygame_event_get = evs, ctrl_pressed = False, clock_check = t, clock_entry = t,
      strftime = stamp, printer_is_installed = installed, makedirs_fails = False,
      capture_fails = False, print_fails = False\<rparr>"

definition example_startup :: "bool \<Rightarrow> env" where
  "example_startup installed = example_env [] 0 ''2018-01-01-10-00-00'' installed"

text \<open>
  Three ticks that take a started application from wait to processing when one capture
  is requested: the picture button, expiry of the choose timer, one capture.
\<close>

definition example_ticks :: "bool \<Rightarrow> env list" where
  "example_ticks installed =
     [example_env [BUTTON_DOWN 11] 1 ''2018-01-01-10-00-01'' installed,
      example_env [] 9 ''2018-01-01-10-00-09'' installed,
      example_env [] 10 ''2018-01-01-10-00-10'' installed]"

text \<open>
  With a printer: a first cycle in which the print button is pressed in the print state,
  then a second cycle up to the entry of the print state (at clock 30), and one more
  tick without any event, one time unit later.
\<close>

definition example_print_ticks :: "env list" where
  "example_print_ticks =
     example_ticks True @
     [example_env [] 11 ''2018-01-01-10-00-11'' True,
      example_env [BUTTON_DOWN 13] 12 ''2018-01-01-10-00-12'' True,
      example_env [] 13 ''2018-01-01-10-00-13'' True,
      example_env [BUTTON_DOWN 11] 20 ''2018-01-01-10-00-20'' True,
      example_env [] 28 ''2018-01-01-10-00-28'' True,
      example_env [] 29 ''2018-01-01-10-00-29'' True,
      example_env [] 30 ''2018-01-01-10-00-30'' True]"

definition example_idle_tick :: env where
  "example_idle_tick = example_env [] 31 ''2018-01-01-10-00-31'' True"

subsection \<open>Invariants\<close>

text \<open>
  The actions that only the cleanup sequence of \<open>main_loop\<close> performs (the two
  \<open>switch_off\<close> calls also occur in exit hooks).
\<close>

definition cleanup_only :: "action set" where
  "cleanup_only = {GPIO_cleanup, Camera_quit, Printer_quit, Pygame_quit}"

definition no_cleanup_yet :: "app \<Rightarrow> bool" where
  "no_cleanup_yet a = (set (trace a) \<inter> cleanup_only = {})"

text \<open>
  What holds of \<open>captures\<close> and \<open>max_captures\<close> between ticks when the configured count
  is at least 1, by active state.
\<close>

fun captures_inv_at :: "state option \<Rightarrow> app \<Rightarrow> bool" where
  "captures_inv_at (Some StateChoose) a =
     (captures a = [] \<and> (\<exists>m. max_captures a = Some m \<and> 1 \<le> m))"
| "captures_inv_at (Some StateCapture) a =
     (\<exists>m. max_captures a = Some m \<and> int (length (captures a)) < m)"
| "captures_inv_at (Some StateProcessing) a =
     (\<exists>m. max_captures a = Some m \<and> int (length (captures a)) \<le> m)"
| "captures_inv_at _ a = (captures a = [])"

definition captures_inv :: "app \<Rightarrow> bool" where
  "captures_inv a = (1 \<le> picture_captures (config a) \<and> captures_inv_at (active_state a) a)"

subsection \<open>Workflow cycles\<close>

fun is_save_picture :: "action \<Rightarrow> bool" where
  "is_save_picture (Save_picture picture file) = True"
| "is_save_picture _ = False"

text \<open>How many times a composed picture was saved in a sequence of actions.\<close>

definition saves :: "action list \<Rightarrow> nat" where
  "saves xs = length (filter is_save_picture xs)"

text \<open>The state that is active after each tick, for as long as the loop runs.\<close>

fun trajectory :: "app \<Rightarrow> env list \<Rightarrow> state option list" where
  "trajectory a [] = []"
| "trajectory a (e # es) =
     (case tick a e of
        Running a' \<Rightarrow> active_state a' # trajectory a' es
      | Stopped a' \<Rightarrow> []
      | Failed x a' \<Rightarrow> [])"

text \<open>The trajectory of the loop of \<open>main_loop\<close>.\<close>

definition main_trajectory :: "app \<Rightarrow> env \<Rightarrow> env list \<Rightarrow> state option list" where
  "main_trajectory a e0 es =
     (case set_state a ''wait'' e0 of
        Raised x a1 \<Rightarrow> []
      | Done a1 \<Rightarrow> trajectory a1 es)"

text \<open>
  The trajectory of one cycle wait, choose, capture (one shot), processing, finish, wait
  that starts in the wait state: \<open>i\<close> ticks that stay in wait, the tick of the picture
  request and \<open>j\<close> further ticks that stay in choose, then the four ticks that enter
  capture, processing, finish and wait.
\<close>

definition cycle_pattern :: "nat \<Rightarrow> nat \<Rightarrow> state option list" where
  "cycle_pattern i j =
     replicate i (Some StateWait) @ replicate (Suc j) (Some StateChoose) @
     [Some StateCapture, Some StateProcessing, Some StateFinish, Some StateWait]"

text \<open>
  Configuration and save directory are those given at construction, and \<open>captures\<close> is
  empty unless the capture or the processing state is active.
\<close>

definition idle_inv :: "config \<Rightarrow> string \<Rightarrow> app \<Rightarrow> bool" where
  "idle_inv cfg dir a =
     (config a = cfg \<and> savedir a = dir
      \<and> (active_state a = Some StateCapture \<or> active_state a = Some StateProcessing
           \<or> captures a = []))"


section \<open>Properties\<close>

subsection \<open>The finders\<close>

lemma find_Some_pred: "find P xs = Some x \<Longrightarrow> P x"
  by (induction xs) (auto split: if_splits)

lemma find_Some_mem: "find P xs = Some x \<Longrightarrow> x \<in> set xs"
  by (induction xs) (auto split: if_splits)

lemma find_None_iff_pred: "find P xs = None \<longleftrightarrow> (\<forall>x \<in> set xs. \<not> P x)"
  by (induction xs) auto

text \<open>
  C10: an event that the picture-request finder returns and that is a button-down event
  is a button-down on the picture button, satisfies the predicate of the choice-change
  finder, and makes the choice-change finder return an event on the same batch.
\<close>

theorem C10_picture_button_is_choice_button:
  assumes "find_picture_event events = Some (BUTTON_DOWN pin)"
  shows "pin = button_picture \<and> choice_pred (BUTTON_DOWN pin) \<and> find_choice_event events \<noteq> None"
proof -
  from assms have p: "picture_pred (BUTTON_DOWN pin)" and m: "BUTTON_DOWN pin \<in> set events"
    unfolding find_picture_event_def by (auto dest: find_Some_pred find_Some_mem)
  from p have c: "choice_pred (BUTTON_DOWN pin)" by simp
  from m c have "\<exists>x \<in> set events. choice_pred x" by blast
  then have "find_choice_event events \<noteq> None"
    unfolding find_choice_event_def by (simp add: find_None_iff_pred)
  with p c show ?thesis by simp
qed

theorem C10_picture_button_is_choice_button_witness:
  "find_picture_event [QUIT, BUTTON_DOWN 11] = Some (BUTTON_DOWN 11)
   \<and> (11::nat) = button_picture \<and> choice_pred (BUTTON_DOWN 11)
   \<and> find_choice_event [QUIT, BUTTON_DOWN 11] \<noteq> None"
proof -
  have h: "find_picture_event [QUIT, BUTTON_DOWN 11] = Some (BUTTON_DOWN 11)"
    by (simp add: find_picture_event_def button_picture_def)
  from C10_picture_button_is_choice_button [OF h] h show ?thesis
    by (simp add: find_choice_event_def button_picture_def)
qed

subsection \<open>Single states\<close>

lemma states_simps [simp]:
  "states ''wait'' = Some StateWait"
  "states ''choose'' = Some StateChoose"
  "states ''capture'' = Some StateCapture"
  "states ''processing'' = Some StateProcessing"
  "states ''print'' = Some StatePrint"
  "states ''finish'' = Some StateFinish"
  by (simp_all add: states_def)

lemmas hook_defs =
  StateWait_entry_actions_def StateWait_do_actions_def StateWait_exit_actions_def
  StateWait_validate_transition_def
  StateChoose_entry_actions_def StateChoose_do_actions_def StateChoose_validate_transition_def
  StateCapture_entry_actions_def StateCapture_do_actions_def StateCapture_exit_actions_def
  StateCapture_validate_transition_def
  StateProcessing_entry_actions_def StateProcessing_exit_actions_def
  StateProcessing_validate_transition_def
  StatePrint_entry_actions_def StatePrint_do_actions_def StatePrint_validate_transition_def
  StateFinish_entry_actions_def
  State_do_actions_def State_exit_actions_def State_validate_transition_def
  is_timeout_def timer_start_def emit_def Let_def

text \<open>
  C2: the per-tick action of the choose state always completes and shows the (new)
  requested count as its last display call; when the batch holds a choice-change event,
  a count of 1 becomes 4 and a count of 4 becomes 1.
\<close>

theorem C2_choose_toggle:
  "\<exists>a'. StateChoose_do_actions a events e = Done a'
     \<and> trace a' = trace a @ [Show_choice (max_captures a')]
     \<and> (find_choice_event events \<noteq> None \<longrightarrow>
          (max_captures a = Some 1 \<longrightarrow> max_captures a' = Some 4)
        \<and> (max_captures a = Some 4 \<longrightarrow> max_captures a' = Some 1))"
  by (simp add: StateChoose_do_actions_def Let_def emit_def)

theorem C2_choose_toggle_witness:
  "find_choice_event [KEYDOWN K_RIGHT] \<noteq> None
   \<and> max_captures ((example_app 1)\<lparr>max_captures := Some 1\<rparr>) = Some 1
   \<and> (\<exists>a'. StateChoose_do_actions ((example_app 1)\<lparr>max_captures := Some 1\<rparr>) [KEYDOWN K_RIGHT]
              (example_env [KEYDOWN K_RIGHT] 0 [] False) = Done a'
          \<and> max_captures a' = Some 4)"
  using C2_choose_toggle [of "(example_app 1)\<lparr>max_captures := Some 1\<rparr>" "[KEYDOWN K_RIGHT]"
      "example_env [KEYDOWN K_RIGHT] 0 [] False"]
  by (auto simp: find_choice_event_def)

lemma process_entered_print:
  assumes "active_state (outcome_app (process a events e)) = Some StatePrint"
    and "active_state a \<noteq> Some StatePrint"
  shows "active_state a = Some StateProcessing \<and> printer_is_installed e"
proof (cases "active_state a")
  case None
  with assms show ?thesis by (simp add: process_def)
next
  case (Some s)
  with assms show ?thesis
    by (cases s) (auto simp: process_def hook_defs split: if_splits option.splits sum.splits)
qed

lemma process_processing_not_installed:
  assumes "active_state a = Some StateProcessing" and "\<not> printer_is_installed e"
  shows "process a events e =
     Done ((emit (a\<lparr>captures := [], active_state := Some StateFinish\<rparr>) [Show_finished, Sleep 0.5]))"
  using assms by (simp add: process_def hook_defs)

text \<open>
  C4: the transition check of the processing state returns \<open>print\<close> when the printer
  reports installed and \<open>finish\<close> otherwise. With the printer not installed, a tick of
  the state machine in the processing state ends in the finish state; and a tick can
  only enter the print state from the processing state with the printer installed.
\<close>

theorem C4_processing_transition:
  "StateProcessing_validate_transition a events e =
      Inr (Some (if printer_is_installed e then ''print'' else ''finish''))
   \<and> (active_state a = Some StateProcessing \<and> \<not> printer_is_installed e \<longrightarrow>
        (\<exists>a'. process a events e = Done a' \<and> active_state a' = Some StateFinish))
   \<and> (active_state (outcome_app (process a events e)) = Some StatePrint
        \<and> active_state a \<noteq> Some StatePrint \<longrightarrow>
        active_state a = Some StateProcessing \<and> printer_is_installed e)"
proof (intro conjI impI)
  show "StateProcessing_validate_transition a events e =
      Inr (Some (if printer_is_installed e then ''print'' else ''finish''))"
    by (simp add: StateProcessing_validate_transition_def)
next
  assume "active_state a = Some StateProcessing \<and> \<not> printer_is_installed e"
  then show "\<exists>a'. process a events e = Done a' \<and> active_state a' = Some StateFinish"
    by (simp add: process_processing_not_installed emit_def)
next
  assume h: "active_state (outcome_app (process a events e)) = Some StatePrint
        \<and> active_state a \<noteq> Some StatePrint"
  then show "active_state a = Some StateProcessing" using process_entered_print by blast
  from h show "printer_is_installed e" using process_entered_print by blast
qed

theorem C4_processing_transition_witness:
  "active_state ((example_app 1)\<lparr>active_state := Some StateProcessing\<rparr>) = Some StateProcessing
   \<and> \<not> printer_is_installed (example_env [] 0 [] False)
   \<and> (\<exists>a'. process ((example_app 1)\<lparr>active_state := Some StateProcessing\<rparr>) [] (example_env [] 0 [] False) = Done a'
          \<and> active_state a' = Some StateFinish)
   \<and> active_state (outcome_app (process ((example_app 1)\<lparr>active_state := Some StateProcessing, dirname := Some ''d''\<rparr>) []
         (example_env [] 0 [] True))) = Some StatePrint
   \<and> active_state ((example_app 1)\<lparr>active_state := Some StateProcessing, dirname := Some ''d''\<rparr>) \<noteq> Some StatePrint
   \<and> printer_is_installed (example_env [] 0 [] True)"
proof -
  have 1: "active_state ((example_app 1)\<lparr>active_state := Some StateProcessing\<rparr>) = Some StateProcessing
     \<and> \<not> printer_is_installed (example_env [] 0 [] False)"
    by (simp add: example_env_def)
  have 2: "active_state (outcome_app (process ((example_app 1)\<lparr>active_state := Some StateProcessing, dirname := Some ''d''\<rparr>) []
         (example_env [] 0 [] True))) = Some StatePrint
     \<and> active_state ((example_app 1)\<lparr>active_state := Some StateProcessing, dirname := Some ''d''\<rparr>) \<noteq> Some StatePrint"
    by (simp add: process_def hook_defs example_env_def)
  from 1 2 C4_processing_transition [of "(example_app 1)\<lparr>active_state := Some StateProcessing\<rparr>" "[]" "example_env [] 0 [] False"]
    C4_processing_transition [of "(example_app 1)\<lparr>active_state := Some StateProcessing, dirname := Some ''d''\<rparr>" "[]" "example_env [] 0 [] True"]
  show ?thesis by blast
qed


lemma format_03_examples:
  "format_03 0 = ''000''" "format_03 1 = ''001''" "format_03 2 = ''002''" "format_03 3 = ''003''"
  by code_simp+

subsection \<open>Invariants of the loop\<close>

lemma tick_preserves:
  assumes emit: "\<And>a xs. P a \<Longrightarrow> set xs \<subseteq> insert Toggle_fullscreen (range Resize) \<Longrightarrow> P (emit a xs)"
    and proc: "\<And>a events e. P a \<Longrightarrow> P (outcome_app (process a events e))"
    and a: "P a"
  shows "P (app_of (tick a e))"
proof (cases "find_quit_event (rev (pygame_event_get e)) \<noteq> None")
  case True
  with a show ?thesis by (simp add: tick_def)
next
  case False
  define a1 where "a1 = (if find_fullscreen_event (ctrl_pressed e) (rev (pygame_event_get e)) \<noteq> None
                      then emit a [Toggle_fullscreen] else a)"
  define a2 where "a2 = (case find_resize_event (rev (pygame_event_get e)) of
                        Some (VIDEORESIZE sz) \<Rightarrow> emit a1 [Resize sz]
                      | _ \<Rightarrow> a1)"
  have "P a1" unfolding a1_def using a emit [of a "[Toggle_fullscreen]"] by simp
  then have "P a2" unfolding a2_def using emit [of a1 "[Resize sz]" for sz]
    by (auto split: option.splits event.splits)
  then have "P (outcome_app (process a2 (rev (pygame_event_get e)) e))" by (rule proc)
  moreover have "app_of (tick a e) = outcome_app (process a2 (rev (pygame_event_get e)) e)"
    using False unfolding tick_def a1_def a2_def Let_def
    by (simp split: outcome.splits)
  ultimately show ?thesis by simp
qed

lemma loop_preserves:
  assumes emit: "\<And>a xs. P a \<Longrightarrow> set xs \<subseteq> insert Toggle_fullscreen (range Resize) \<Longrightarrow> P (emit a xs)"
    and proc: "\<And>a events e. P a \<Longrightarrow> P (outcome_app (process a events e))"
    and a: "P a"
  shows "P (app_of (loop a es))"
  using a
proof (induction es arbitrary: a)
  case Nil
  then show ?case by simp
next
  case (Cons e es)
  from tick_preserves [of P, OF emit proc Cons.prems]
  have t: "P (app_of (tick a e))" by simp
  show ?case
  proof (cases "tick a e")
    case (Running a')
    with t Cons.IH [of a'] show ?thesis by simp
  next
    case (Stopped a')
    with t show ?thesis by simp
  next
    case (Failed x a')
    with t show ?thesis by simp
  qed
qed

lemma process_printed: "printed a \<Longrightarrow> printed (outcome_app (process a events e))"
proof (cases "active_state a")
  case None
  assume "printed a"
  with None show ?thesis by (simp add: process_def)
next
  case (Some s)
  assume "printed a"
  with Some show ?thesis
    by (cases s) (auto simp: process_def hook_defs split: if_splits option.splits sum.splits)
qed

lemma process_no_cleanup_yet: "no_cleanup_yet a \<Longrightarrow> no_cleanup_yet (outcome_app (process a events e))"
proof (cases "active_state a")
  case None
  assume "no_cleanup_yet a"
  with None show ?thesis by (simp add: process_def)
next
  case (Some s)
  assume "no_cleanup_yet a"
  with Some show ?thesis
    by (cases s) (auto simp: process_def hook_defs no_cleanup_yet_def cleanup_only_def
          split: if_splits option.splits sum.splits)
qed

lemma process_captures_inv: "captures_inv a \<Longrightarrow> captures_inv (outcome_app (process a events e))"
proof (cases "active_state a")
  case None
  assume "captures_inv a"
  with None show ?thesis by (simp add: process_def)
next
  case (Some s)
  assume "captures_inv a"
  with Some show ?thesis
    by (cases s) (auto simp: process_def hook_defs captures_inv_def
          split: if_splits option.splits sum.splits)
qed

lemmas example_defs = example_app_def example_config_def example_env_def PtbApplication_init_def

lemmas finder_defs = find_quit_event_def find_fullscreen_event_def find_picture_event_def
  find_print_event_def find_resize_event_def find_choice_event_def button_picture_def button_print_def

lemmas loop_defs = main_loop_def set_state_def tick_def process_def cleanup_def cleanup_actions_def

lemmas run_defs = example_startup_def example_ticks_def example_print_ticks_def example_idle_tick_def
  example_defs finder_defs loop_defs hook_defs StateChoose_timeout_def StatePrint_timeout_def

lemma osp_join_nonempty [simp]: "b \<noteq> [] \<Longrightarrow> osp_join a b \<noteq> []"
  by (simp add: osp_join_def)

lemma emit_fields [simp]:
  "config (emit a xs) = config a" "savedir (emit a xs) = savedir a"
  "dirname (emit a xs) = dirname a" "captures (emit a xs) = captures a"
  "max_captures (emit a xs) = max_captures a" "previous_picture (emit a xs) = previous_picture a"
  "previous_picture_file (emit a xs) = previous_picture_file a"
  "choose_timer (emit a xs) = choose_timer a" "print_timer (emit a xs) = print_timer a"
  "printed (emit a xs) = printed a" "active_state (emit a xs) = active_state a"
  "trace (emit a xs) = trace a @ xs"
  by (simp_all add: emit_def)

lemma captures_inv_emit: "captures_inv a \<Longrightarrow> captures_inv (emit a xs)"
  by (cases "active_state a"; cases "the (active_state a)") (auto simp: captures_inv_def)

lemma app_of_try_finally_fields:
  "captures (app_of (try_finally r)) = captures (app_of r)"
  "max_captures (app_of (try_finally r)) = max_captures (app_of r)"
  "active_state (app_of (try_finally r)) = active_state (app_of r)"
  by (cases r; simp add: cleanup_def)+

lemma captures_inv_bound:
  assumes "captures_inv a" and "active_state a = Some StateCapture \<or> active_state a = Some StateProcessing"
  shows "\<exists>m. max_captures a = Some m \<and> int (length (captures a)) \<le> m"
  using assms by (auto simp: captures_inv_def)

lemma main_loop_captures_inv:
  assumes "1 \<le> picture_captures cfg"
  shows "captures_inv (app_of (case set_state (PtbApplication_init cfg dir) ''wait'' e0 of
                Raised x a1 \<Rightarrow> Failed x a1
              | Done a1 \<Rightarrow> loop a1 es))"
proof -
  let ?a1 = "emit ((PtbApplication_init cfg dir)\<lparr>active_state := Some StateWait\<rparr>) [Show_intro None]"
  have s: "set_state (PtbApplication_init cfg dir) ''wait'' e0 = Done ?a1"
    by (simp add: set_state_def StateWait_entry_actions_def PtbApplication_init_def)
  have a1: "captures_inv ?a1" using assms by (simp add: captures_inv_def PtbApplication_init_def)
  have "captures_inv (app_of (loop ?a1 es))"
    by (rule loop_preserves [where P = captures_inv])
      (auto intro: captures_inv_emit process_captures_inv a1)
  with s show ?thesis by simp
qed

text \<open>
  C3, as stated, fails when the configured count is 0: the capture tick appends a path
  before the transition check runs, so the processing state is entered with one capture
  while \<open>max_captures\<close> is 0.
\<close>

theorem C3_zero_count_counterexample:
  "active_state (app_of (main_loop (example_app 0) (example_startup False) (example_ticks False)))
     = Some StateProcessing
   \<and> max_captures (app_of (main_loop (example_app 0) (example_startup False) (example_ticks False)))
     = Some 0
   \<and> length (captures (app_of (main_loop (example_app 0) (example_startup False) (example_ticks False))))
     = 1"
  by (simp add: run_defs)

text \<open>
  C3, amended: when the configured count is at least 1, after any number of ticks of
  \<open>main_loop\<close> on a fresh application, if the capture state or the processing state is
  active then the length of \<open>captures\<close> is at most \<open>max_captures\<close>. A capture tick
  appends at most one path, the transition check of the capture state returns
  \<open>processing\<close> exactly when the length has reached \<open>max_captures\<close>, and the exit hook
  of the processing state empties \<open>captures\<close>.
\<close>

theorem C3_captures_bounded:
  assumes "1 \<le> picture_captures cfg"
  shows "(active_state (app_of (main_loop (PtbApplication_init cfg dir) e0 es)) = Some StateCapture
          \<or> active_state (app_of (main_loop (PtbApplication_init cfg dir) e0 es)) = Some StateProcessing
          \<longrightarrow> (\<exists>m. max_captures (app_of (main_loop (PtbApplication_init cfg dir) e0 es)) = Some m
                  \<and> int (length (captures (app_of (main_loop (PtbApplication_init cfg dir) e0 es)))) \<le> m))
       \<and> length (captures (outcome_app (StateCapture_do_actions a events e))) \<le> length (captures a) + 1
       \<and> (max_captures a = Some n \<longrightarrow>
            StateCapture_validate_transition a events e =
              Inr (if n \<le> int (length (captures a)) then Some ''processing'' else None))
       \<and> captures (outcome_app (StateProcessing_exit_actions a)) = []"
proof (intro conjI impI)
  let ?r = "case set_state (PtbApplication_init cfg dir) ''wait'' e0 of
                Raised x a1 \<Rightarrow> Failed x a1
              | Done a1 \<Rightarrow> loop a1 es"
  assume act: "active_state (app_of (main_loop (PtbApplication_init cfg dir) e0 es)) = Some StateCapture
          \<or> active_state (app_of (main_loop (PtbApplication_init cfg dir) e0 es)) = Some StateProcessing"
  have inv: "captures_inv (app_of ?r)" using assms by (rule main_loop_captures_inv)
  from act have "active_state (app_of ?r) = Some StateCapture \<or> active_state (app_of ?r) = Some StateProcessing"
    by (simp add: main_loop_def app_of_try_finally_fields)
  with inv have "\<exists>m. max_captures (app_of ?r) = Some m \<and> int (length (captures (app_of ?r))) \<le> m"
    by (rule captures_inv_bound)
  then show "\<exists>m. max_captures (app_of (main_loop (PtbApplication_init cfg dir) e0 es)) = Some m
                  \<and> int (length (captures (app_of (main_loop (PtbApplication_init cfg dir) e0 es)))) \<le> m"
    by (simp add: main_loop_def app_of_try_finally_fields)
next
  show "length (captures (outcome_app (StateCapture_do_actions a events e))) \<le> length (captures a) + 1"
    by (simp add: StateCapture_do_actions_def Let_def split: option.splits)
next
  assume "max_captures a = Some n"
  then show "StateCapture_validate_transition a events e =
              Inr (if n \<le> int (length (captures a)) then Some ''processing'' else None)"
    by (simp add: StateCapture_validate_transition_def)
next
  show "captures (outcome_app (StateProcessing_exit_actions a)) = []"
    by (simp add: StateProcessing_exit_actions_def)
qed

theorem C3_captures_bounded_witness:
  "1 \<le> picture_captures (example_config 1)
   \<and> active_state (app_of (main_loop (PtbApplication_init (example_config 1) ''/home/pi/Pictures'')
        (example_startup False) (example_ticks False))) = Some StateProcessing
   \<and> (\<exists>m. max_captures (app_of (main_loop (PtbApplication_init (example_config 1) ''/home/pi/Pictures'')
        (example_startup False) (example_ticks False))) = Some m
        \<and> int (length (captures (app_of (main_loop (PtbApplication_init (example_config 1) ''/home/pi/Pictures'')
        (example_startup False) (example_ticks False))))) \<le> m)
   \<and> max_captures ((example_app 1)\<lparr>max_captures := Some 1\<rparr>) = Some 1
   \<and> StateCapture_validate_transition ((example_app 1)\<lparr>max_captures := Some 1\<rparr>) [] (example_startup False)
        = Inr None"
proof -
  have h: "1 \<le> picture_captures (example_config 1)" by (simp add: example_config_def)
  have act: "active_state (app_of (main_loop (PtbApplication_init (example_config 1) ''/home/pi/Pictures'')
        (example_startup False) (example_ticks False))) = Some StateProcessing"
    by (simp add: run_defs)
  have m: "max_captures ((example_app 1)\<lparr>max_captures := Some 1\<rparr>) = Some 1" by simp
  have c: "captures ((example_app 1)\<lparr>max_captures := Some 1\<rparr>) = []" by (simp add: example_defs)
  from C3_captures_bounded [OF h, of "''/home/pi/Pictures''" "example_startup False" "example_ticks False"
      "(example_app 1)\<lparr>max_captures := Some 1\<rparr>" "[]" "example_startup False" 1] h act m c
  show ?thesis by simp
qed

subsection \<open>The printed flag\<close>

lemma printed_emit: "printed a \<Longrightarrow> printed (emit a xs)"
  by simp

lemma loop_printed: "printed a \<Longrightarrow> printed (app_of (loop a es))"
  by (rule loop_preserves [where P = printed]) (auto intro: process_printed)

lemma process_print_printed:
  assumes "active_state a = Some StatePrint" and "printed a" and "print_timer a = Some t"
    and "\<not> print_fails e"
  shows "\<exists>a'. process a events e = Done a' \<and> active_state a' = Some StateFinish"
  using assms by (auto simp: process_def hook_defs)

text \<open>
  C9: \<open>printed\<close> is false at construction, the entry hook of the print state leaves it
  as it is, a print in the per-tick action sets it, and once set it stays set through
  any number of ticks of the loop. With the flag set, the transition check after any
  later entry of the print state returns \<open>finish\<close> whatever the clock and the events
  are, also after the per-tick action of that tick, so the state machine leaves the
  print state in the first tick.
\<close>

theorem C9_printed_flag_persists:
  "\<not> printed (PtbApplication_init cfg dir)
   \<and> printed (outcome_app (StatePrint_entry_actions a e0)) = printed a
   \<and> (find_print_event (ctrl_pressed e) events \<noteq> None \<and> truthy (previous_picture_file a)
        \<and> \<not> print_fails e \<longrightarrow> printed (outcome_app (StatePrint_do_actions a events e)))
   \<and> (printed a \<longrightarrow> printed (app_of (loop a es)))
   \<and> (printed a \<longrightarrow>
        (\<exists>a1. StatePrint_entry_actions a e0 = Done a1
           \<and> StatePrint_validate_transition a1 events e = Inr (Some ''finish'')
           \<and> (\<forall>a2. StatePrint_do_actions a1 events e = Done a2 \<longrightarrow>
                  StatePrint_validate_transition a2 events e = Inr (Some ''finish''))))
   \<and> (printed a \<and> active_state a = Some StatePrint \<and> print_timer a \<noteq> None \<and> \<not> print_fails e \<longrightarrow>
        (\<exists>a'. process a events e = Done a' \<and> active_state a' = Some StateFinish))"
proof (intro conjI impI)
  show "\<not> printed (PtbApplication_init cfg dir)" by (simp add: PtbApplication_init_def)
  show "printed (outcome_app (StatePrint_entry_actions a e0)) = printed a"
    by (simp add: StatePrint_entry_actions_def Let_def)
  show "printed (outcome_app (StatePrint_do_actions a events e))"
    if "find_print_event (ctrl_pressed e) events \<noteq> None \<and> truthy (previous_picture_file a)
        \<and> \<not> print_fails e"
    using that by (simp add: StatePrint_do_actions_def)
  show "printed (app_of (loop a es))" if "printed a" using that by (rule loop_printed)
  show "\<exists>a1. StatePrint_entry_actions a e0 = Done a1
           \<and> StatePrint_validate_transition a1 events e = Inr (Some ''finish'')
           \<and> (\<forall>a2. StatePrint_do_actions a1 events e = Done a2 \<longrightarrow>
                  StatePrint_validate_transition a2 events e = Inr (Some ''finish''))"
    if "printed a"
    using that by (auto simp: hook_defs split: if_splits)
  show "\<exists>a'. process a events e = Done a' \<and> active_state a' = Some StateFinish"
    if "printed a \<and> active_state a = Some StatePrint \<and> print_timer a \<noteq> None \<and> \<not> print_fails e"
    using that process_print_printed [of a _ e events] by auto
qed

theorem C9_printed_flag_persists_witness:
  "printed ((example_app 1)\<lparr>printed := True, active_state := Some StatePrint, print_timer := Some 30,
        previous_picture_file := Some ''f.jpg''\<rparr>)
   \<and> find_print_event (ctrl_pressed (example_env [BUTTON_DOWN 13] 31 [] True)) [BUTTON_DOWN 13] \<noteq> None
   \<and> \<not> print_fails (example_env [BUTTON_DOWN 13] 31 [] True)
   \<and> printed (app_of (loop ((example_app 1)\<lparr>printed := True, active_state := Some StatePrint,
        print_timer := Some 30, previous_picture_file := Some ''f.jpg''\<rparr>) [example_idle_tick]))
   \<and> (\<exists>a'. process ((example_app 1)\<lparr>printed := True, active_state := Some StatePrint,
        print_timer := Some 30, previous_picture_file := Some ''f.jpg''\<rparr>) [BUTTON_DOWN 13]
          (example_env [BUTTON_DOWN 13] 31 [] True) = Done a'
        \<and> active_state a' = Some StateFinish)
   \<and> (\<exists>a1. StatePrint_entry_actions ((example_app 1)\<lparr>printed := True, active_state := Some StatePrint,
        print_timer := Some 30, previous_picture_file := Some ''f.jpg''\<rparr>) example_idle_tick = Done a1
        \<and> StatePrint_validate_transition a1 [BUTTON_DOWN 13] (example_env [BUTTON_DOWN 13] 31 [] True)
            = Inr (Some ''finish''))
   \<and> printed (outcome_app (StatePrint_do_actions ((example_app 1)\<lparr>printed := True,
        active_state := Some StatePrint, print_timer := Some 30,
        previous_picture_file := Some ''f.jpg''\<rparr>) [BUTTON_DOWN 13] (example_env [BUTTON_DOWN 13] 31 [] True)))"
proof -
  let ?a = "(example_app 1)\<lparr>printed := True, active_state := Some StatePrint, print_timer := Some 30,
        previous_picture_file := Some ''f.jpg''\<rparr>"
  let ?e = "example_env [BUTTON_DOWN 13] 31 [] True"
  have h: "printed ?a" "active_state ?a = Some StatePrint" "print_timer ?a \<noteq> None"
    "truthy (previous_picture_file ?a)" by simp_all
  have f: "find_print_event (ctrl_pressed ?e) [BUTTON_DOWN 13] \<noteq> None" "\<not> print_fails ?e"
    by (simp_all add: find_print_event_def button_print_def example_env_def)
  from C9_printed_flag_persists [of "example_config 1" "''/home/pi/Pictures''" ?a example_idle_tick ?e
      "[BUTTON_DOWN 13]" "[example_idle_tick]"] h f
  show ?thesis by blast
qed

subsection \<open>Quit and cleanup\<close>

lemma loop_append:
  "loop a (es @ es') = (case loop a es of Running a' \<Rightarrow> loop a' es' | Stopped a' \<Rightarrow> Stopped a'
      | Failed x a' \<Rightarrow> Failed x a')"
  by (induction es arbitrary: a) (auto split: loop_state.splits)

lemma tick_quit: "find_quit_event (rev (pygame_event_get e)) \<noteq> None \<Longrightarrow> tick a e = Stopped a"
  by (simp add: tick_def)

lemma no_cleanup_yet_emit:
  "no_cleanup_yet a \<Longrightarrow> set xs \<subseteq> insert Toggle_fullscreen (range Resize) \<Longrightarrow> no_cleanup_yet (emit a xs)"
  by (auto simp: no_cleanup_yet_def cleanup_only_def)

lemma loop_no_cleanup_yet: "no_cleanup_yet a \<Longrightarrow> no_cleanup_yet (app_of (loop a es))"
  by (rule loop_preserves [where P = no_cleanup_yet])
    (auto intro: no_cleanup_yet_emit process_no_cleanup_yet)

lemma set_state_wait:
  "set_state a ''wait'' e0 = Done (emit (a\<lparr>active_state := Some StateWait\<rparr>) [Show_intro (previous_picture a)])"
  by (simp add: set_state_def StateWait_entry_actions_def)

lemma main_loop_eq:
  "main_loop a e0 es =
     try_finally (loop (emit (a\<lparr>active_state := Some StateWait\<rparr>) [Show_intro (previous_picture a)]) es)"
  by (simp add: main_loop_def set_state_wait)

text \<open>
  C7: a tick whose batch holds a quit event leaves the loop with the application
  unchanged, so neither the global handlers nor the state machine run in that tick;
  \<open>main_loop\<close> then returns after the cleanup sequence (both lights off, GPIO cleanup,
  camera quit, printer quit, pygame quit), whatever state was active. On a fresh
  application, every run of \<open>main_loop\<close> that is left by a quit event or by an exception
  ends with the cleanup sequence, performed on a trace that holds none of the
  cleanup-only actions, and a loop that is still running has performed none.
\<close>

theorem C7_quit_and_cleanup:
  "(find_quit_event (rev (pygame_event_get e)) \<noteq> None \<longrightarrow> tick a e = Stopped a)
   \<and> (main_loop a e0 es = Running a2 \<and> find_quit_event (rev (pygame_event_get e)) \<noteq> None \<longrightarrow>
         main_loop a e0 (es @ e # rest) = Stopped (cleanup a2))
   \<and> trace (cleanup a2) = trace a2 @ [Switch_off Led_picture, Switch_off Led_print, GPIO_cleanup,
         Camera_quit, Printer_quit, Pygame_quit]
   \<and> (case main_loop (PtbApplication_init cfg dir) e0 es of
         Running a' \<Rightarrow> no_cleanup_yet a'
       | Stopped a' \<Rightarrow> (\<exists>a''. a' = cleanup a'' \<and> no_cleanup_yet a'')
       | Failed x a' \<Rightarrow> (\<exists>a''. a' = cleanup a'' \<and> no_cleanup_yet a''))"
proof (intro conjI impI)
  show "tick a e = Stopped a" if "find_quit_event (rev (pygame_event_get e)) \<noteq> None"
    using that by (rule tick_quit)
next
  let ?a1 = "emit (a\<lparr>active_state := Some StateWait\<rparr>) [Show_intro (previous_picture a)]"
  assume h: "main_loop a e0 es = Running a2 \<and> find_quit_event (rev (pygame_event_get e)) \<noteq> None"
  then have "try_finally (loop ?a1 es) = Running a2" by (simp add: main_loop_eq)
  then have l: "loop ?a1 es = Running a2" by (cases "loop ?a1 es") simp_all
  from h have "tick a2 e = Stopped a2" by (simp add: tick_quit)
  with l have "loop ?a1 (es @ e # rest) = Stopped a2" by (simp add: loop_append)
  then show "main_loop a e0 (es @ e # rest) = Stopped (cleanup a2)" by (simp add: main_loop_eq)
next
  show "trace (cleanup a2) = trace a2 @ [Switch_off Led_picture, Switch_off Led_print, GPIO_cleanup,
         Camera_quit, Printer_quit, Pygame_quit]"
    by (simp add: cleanup_def cleanup_actions_def)
next
  let ?a = "PtbApplication_init cfg dir"
  let ?a1 = "emit (?a\<lparr>active_state := Some StateWait\<rparr>) [Show_intro (previous_picture ?a)]"
  have "no_cleanup_yet ?a1"
    by (simp add: no_cleanup_yet_def cleanup_only_def PtbApplication_init_def)
  then have "no_cleanup_yet (app_of (loop ?a1 es))" by (rule loop_no_cleanup_yet)
  then show "case main_loop ?a e0 es of
         Running a' \<Rightarrow> no_cleanup_yet a'
       | Stopped a' \<Rightarrow> (\<exists>a''. a' = cleanup a'' \<and> no_cleanup_yet a'')
       | Failed x a' \<Rightarrow> (\<exists>a''. a' = cleanup a'' \<and> no_cleanup_yet a'')"
    unfolding main_loop_eq by (cases "loop ?a1 es") auto
qed

lemma example_run_running:
  "\<exists>a2. main_loop (example_app 1) (example_startup False) (example_ticks False) = Running a2
       \<and> active_state a2 = Some StateProcessing"
  by (simp add: run_defs)

theorem C7_quit_and_cleanup_witness:
  "find_quit_event (rev (pygame_event_get (example_env [KEYDOWN K_p, QUIT] 11 [] False))) \<noteq> None
   \<and> tick (example_app 1) (example_env [KEYDOWN K_p, QUIT] 11 [] False) = Stopped (example_app 1)
   \<and> (\<exists>a2. main_loop (example_app 1) (example_startup False) (example_ticks False) = Running a2
         \<and> active_state a2 = Some StateProcessing
         \<and> main_loop (example_app 1) (example_startup False)
              (example_ticks False @ example_env [KEYDOWN K_p, QUIT] 11 [] False # [example_idle_tick])
            = Stopped (cleanup a2))"
proof -
  let ?q = "example_env [KEYDOWN K_p, QUIT] 11 [] False"
  have q: "find_quit_event (rev (pygame_event_get ?q)) \<noteq> None"
    by (simp add: find_quit_event_def example_env_def)
  obtain a2 where r: "main_loop (example_app 1) (example_startup False) (example_ticks False) = Running a2"
    and s: "active_state a2 = Some StateProcessing"
    using example_run_running by blast
  from C7_quit_and_cleanup [of ?q "example_app 1" "example_startup False" "example_ticks False" a2
      "[example_idle_tick]"] q r s
  show ?thesis by blast
qed

subsection \<open>Ticks of the choose state\<close>

lemma emit_Nil [simp]: "emit a [] = a"
  by (simp add: emit_def)

lemma emit_emit [simp]: "emit (emit a xs) ys = emit a (xs @ ys)"
  by (simp add: emit_def)

lemma tick_no_quit:
  assumes "find_quit_event (rev (pygame_event_get e)) = None"
  shows "\<exists>ys. saves ys = 0 \<and> tick a e =
     (case process (emit a ys) (rev (pygame_event_get e)) e of
        Done a3 \<Rightarrow> Running a3 | Raised x a3 \<Rightarrow> Failed x a3)"
proof -
  define a1 where "a1 = (if find_fullscreen_event (ctrl_pressed e) (rev (pygame_event_get e)) \<noteq> None
                      then emit a [Toggle_fullscreen] else a)"
  define a2 where "a2 = (case find_resize_event (rev (pygame_event_get e)) of
                        Some (VIDEORESIZE sz) \<Rightarrow> emit a1 [Resize sz]
                      | _ \<Rightarrow> a1)"
  have "\<exists>ys. saves ys = 0 \<and> a1 = emit a ys"
  proof (cases "find_fullscreen_event (ctrl_pressed e) (rev (pygame_event_get e)) \<noteq> None")
    case True
    then have "saves [Toggle_fullscreen] = 0 \<and> a1 = emit a [Toggle_fullscreen]"
      by (simp add: a1_def saves_def)
    then show ?thesis by blast
  next
    case False
    then have "saves [] = 0 \<and> a1 = emit a []" by (simp add: a1_def saves_def)
    then show ?thesis by blast
  qed
  then obtain ys where ys: "saves ys = 0" "a1 = emit a ys" by blast
  have "\<exists>zs. saves zs = 0 \<and> a2 = emit a1 zs"
  proof (cases "\<exists>sz. find_resize_event (rev (pygame_event_get e)) = Some (VIDEORESIZE sz)")
    case True
    then obtain sz where "find_resize_event (rev (pygame_event_get e)) = Some (VIDEORESIZE sz)" by blast
    then have "saves [Resize sz] = 0 \<and> a2 = emit a1 [Resize sz]" by (simp add: a2_def saves_def)
    then show ?thesis by blast
  next
    case False
    then have "saves [] = 0 \<and> a2 = emit a1 []"
      by (auto simp: a2_def saves_def split: option.splits event.splits)
    then show ?thesis by blast
  qed
  then obtain zs where zs: "saves zs = 0" "a2 = emit a1 zs" by blast
  have "tick a e = (case process a2 (rev (pygame_event_get e)) e of
        Done a3 \<Rightarrow> Running a3 | Raised x a3 \<Rightarrow> Failed x a3)"
    using assms unfolding tick_def a1_def a2_def Let_def by simp
  moreover have "a2 = emit a (ys @ zs)" using ys zs by simp
  moreover have "saves (ys @ zs) = 0" using ys zs by (simp add: saves_def)
  ultimately show ?thesis by blast
qed

lemma saves_append [simp]: "saves (xs @ ys) = saves xs + saves ys"
  by (simp add: saves_def)

lemma saves_Nil [simp]: "saves [] = 0"
  by (simp add: saves_def)

lemma saves_Cons [simp]: "saves (x # xs) = (if is_save_picture x then Suc (saves xs) else saves xs)"
  by (simp add: saves_def)

lemma tick_choose_stays:
  assumes "active_state a = Some StateChoose"
    and "find_quit_event (rev (pygame_event_get e)) = None"
    and "find_choice_event (rev (pygame_event_get e)) = None"
    and "choose_timer a = Some t0"
    and "clock_check e < t0 + StateChoose_timeout"
  shows "\<exists>xs. saves xs = 0 \<and> tick a e = Running (a\<lparr>trace := trace a @ xs\<rparr>)"
proof -
  from tick_no_quit [OF assms(2), of a] obtain ys where ys: "saves ys = 0"
    "tick a e = (case process (emit a ys) (rev (pygame_event_get e)) e of
        Done a3 \<Rightarrow> Running a3 | Raised x a3 \<Rightarrow> Failed x a3)" by blast
  let ?xs = "ys @ [Show_choice (max_captures a)]"
  have "tick a e = Running (a\<lparr>trace := trace a @ ?xs\<rparr>)"
    using assms ys(2) by (simp add: process_def hook_defs)
  moreover have "saves ?xs = 0" using ys(1) by (simp add: saves_def)
  ultimately show ?thesis by blast
qed

lemma tick_choose_to_capture:
  assumes "active_state a = Some StateChoose"
    and "find_quit_event (rev (pygame_event_get e)) = None"
    and "find_choice_event (rev (pygame_event_get e)) = None"
    and "choose_timer a = Some t0"
    and "t0 + StateChoose_timeout \<le> clock_check e"
    and "\<not> makedirs_fails e"
  shows "\<exists>xs. saves xs = 0 \<and> tick a e = Running (a\<lparr>previous_picture := None,
            previous_picture_file := None, dirname := Some (osp_join (savedir a) (strftime e)),
            active_state := Some StateCapture, trace := trace a @ xs\<rparr>)"
proof -
  from tick_no_quit [OF assms(2), of a] obtain ys where ys: "saves ys = 0"
    "tick a e = (case process (emit a ys) (rev (pygame_event_get e)) e of
        Done a3 \<Rightarrow> Running a3 | Raised x a3 \<Rightarrow> Failed x a3)" by blast
  let ?xs = "ys @ [Show_choice (max_captures a), Makedirs (osp_join (savedir a) (strftime e)), Camera_preview]"
  have "tick a e = Running (a\<lparr>previous_picture := None,
            previous_picture_file := None, dirname := Some (osp_join (savedir a) (strftime e)),
            active_state := Some StateCapture, trace := trace a @ ?xs\<rparr>)"
    using assms ys(2) by (simp add: process_def hook_defs)
  moreover have "saves ?xs = 0" using ys(1) by (simp add: saves_def)
  ultimately show ?thesis by blast
qed

lemma loop_choose_stays:
  assumes "active_state a = Some StateChoose" and "choose_timer a = Some t0"
    and "\<forall>e \<in> set es. find_quit_event (rev (pygame_event_get e)) = None
           \<and> find_choice_event (rev (pygame_event_get e)) = None
           \<and> clock_check e < t0 + StateChoose_timeout"
  shows "\<exists>xs. loop a es = Running (a\<lparr>trace := trace a @ xs\<rparr>)"
  using assms
proof (induction es arbitrary: a)
  case Nil
  have "loop a [] = Running (a\<lparr>trace := trace a @ []\<rparr>)" by simp
  then show ?case by blast
next
  case (Cons e es)
  from Cons.prems have e: "find_quit_event (rev (pygame_event_get e)) = None"
    "find_choice_event (rev (pygame_event_get e)) = None" "clock_check e < t0 + StateChoose_timeout"
    by simp_all
  from tick_choose_stays [OF Cons.prems(1) e(1) e(2) Cons.prems(2) e(3)]
  obtain xs where t: "tick a e = Running (a\<lparr>trace := trace a @ xs\<rparr>)" by blast
  let ?a' = "a\<lparr>trace := trace a @ xs\<rparr>"
  have "\<exists>ys. loop ?a' es = Running (?a'\<lparr>trace := trace ?a' @ ys\<rparr>)"
    using Cons.prems by (intro Cons.IH) simp_all
  then obtain ys where "loop ?a' es = Running (?a'\<lparr>trace := trace ?a' @ ys\<rparr>)" by blast
  with t have "loop a (e # es) = Running (a\<lparr>trace := trace a @ (xs @ ys)\<rparr>)" by simp
  then show ?case by blast
qed

text \<open>
  C8: the entry hook of the choose state, run with choose as the active state, sets
  \<open>max_captures\<close> to the configured count and starts the timer, whose delay is 8. Through
  any ticks without quit and choice-change events whose clock is less than 8 after the
  start, the loop keeps running in the choose state with \<open>max_captures\<close> at the
  configured count; there the transition check returns \<open>capture\<close> exactly when the
  clock is at least 8 after the start, and a tick at such a clock, without choice-change
  event, enters the capture state with \<open>max_captures\<close> still the configured count.
\<close>

theorem C8_choose_entry_and_timeout:
  assumes "active_state a = Some StateChoose"
  shows "\<exists>a1. StateChoose_entry_actions a e0 = Done a1
     \<and> max_captures a1 = Some (picture_captures (config a))
     \<and> choose_timer a1 = Some (clock_entry e0)
     \<and> StateChoose_timeout = 8
     \<and> ((\<forall>e \<in> set es. find_quit_event (rev (pygame_event_get e)) = None
             \<and> find_choice_event (rev (pygame_event_get e)) = None
             \<and> clock_check e < clock_entry e0 + 8) \<longrightarrow>
         (\<exists>a2. loop a1 es = Running a2
            \<and> active_state a2 = Some StateChoose
            \<and> max_captures a2 = Some (picture_captures (config a))
            \<and> (\<forall>events e. StateChoose_validate_transition a2 events e =
                   Inr (if clock_entry e0 + 8 \<le> clock_check e then Some ''capture'' else None))
            \<and> (\<forall>e. find_quit_event (rev (pygame_event_get e)) = None
                   \<and> find_choice_event (rev (pygame_event_get e)) = None
                   \<and> clock_entry e0 + 8 \<le> clock_check e \<and> \<not> makedirs_fails e \<longrightarrow>
                   (\<exists>a3. tick a2 e = Running a3 \<and> active_state a3 = Some StateCapture
                      \<and> max_captures a3 = Some (picture_captures (config a))))))"
proof -
  let ?a1 = "a\<lparr>max_captures := Some (picture_captures (config a)),
               choose_timer := Some (clock_entry e0),
               trace := trace a @ [Switch_on Led_picture, Show_choice (Some (picture_captures (config a)))]\<rparr>"
  have entry: "StateChoose_entry_actions a e0 = Done ?a1"
    by (simp add: hook_defs)
  have act: "active_state ?a1 = Some StateChoose" and tm: "choose_timer ?a1 = Some (clock_entry e0)"
    using assms by simp_all
  have rest: "\<exists>a2. loop ?a1 es = Running a2
            \<and> active_state a2 = Some StateChoose
            \<and> max_captures a2 = Some (picture_captures (config a))
            \<and> (\<forall>events e. StateChoose_validate_transition a2 events e =
                   Inr (if clock_entry e0 + 8 \<le> clock_check e then Some ''capture'' else None))
            \<and> (\<forall>e. find_quit_event (rev (pygame_event_get e)) = None
                   \<and> find_choice_event (rev (pygame_event_get e)) = None
                   \<and> clock_entry e0 + 8 \<le> clock_check e \<and> \<not> makedirs_fails e \<longrightarrow>
                   (\<exists>a3. tick a2 e = Running a3 \<and> active_state a3 = Some StateCapture
                      \<and> max_captures a3 = Some (picture_captures (config a))))"
    if h: "\<forall>e \<in> set es. find_quit_event (rev (pygame_event_get e)) = None
             \<and> find_choice_event (rev (pygame_event_get e)) = None
             \<and> clock_check e < clock_entry e0 + 8"
  proof -
    from h have h': "\<forall>e \<in> set es. find_quit_event (rev (pygame_event_get e)) = None
             \<and> find_choice_event (rev (pygame_event_get e)) = None
             \<and> clock_check e < clock_entry e0 + StateChoose_timeout"
      by (simp add: StateChoose_timeout_def)
    from loop_choose_stays [OF act tm h'] obtain xs
      where l: "loop ?a1 es = Running (?a1\<lparr>trace := trace ?a1 @ xs\<rparr>)" by blast
    let ?a2 = "?a1\<lparr>trace := trace ?a1 @ xs\<rparr>"
    have v: "\<forall>events e. StateChoose_validate_transition ?a2 events e =
                   Inr (if clock_entry e0 + 8 \<le> clock_check e then Some ''capture'' else None)"
      by (auto simp: StateChoose_validate_transition_def is_timeout_def StateChoose_timeout_def)
    have t: "\<exists>a3. tick ?a2 e = Running a3 \<and> active_state a3 = Some StateCapture
                      \<and> max_captures a3 = Some (picture_captures (config a))"
      if e: "find_quit_event (rev (pygame_event_get e)) = None
                   \<and> find_choice_event (rev (pygame_event_get e)) = None
                   \<and> clock_entry e0 + 8 \<le> clock_check e \<and> \<not> makedirs_fails e" for e
    proof -
      have "\<exists>xs. saves xs = 0 \<and> tick ?a2 e = Running (?a2\<lparr>previous_picture := None,
            previous_picture_file := None, dirname := Some (osp_join (savedir ?a2) (strftime e)),
            active_state := Some StateCapture, trace := trace ?a2 @ xs\<rparr>)"
        using e assms by (intro tick_choose_to_capture [where ?t0.0 = "clock_entry e0"])
          (simp_all add: StateChoose_timeout_def)
      then obtain ys where "tick ?a2 e = Running (?a2\<lparr>previous_picture := None,
            previous_picture_file := None, dirname := Some (osp_join (savedir ?a2) (strftime e)),
            active_state := Some StateCapture, trace := trace ?a2 @ ys\<rparr>)" by blast
      then show ?thesis by simp
    qed
    from l v t assms show ?thesis by simp
  qed
  from entry rest show ?thesis by (simp add: StateChoose_timeout_def)
qed

theorem C8_choose_entry_and_timeout_witness:
  "active_state ((example_app 1)\<lparr>active_state := Some StateChoose\<rparr>) = Some StateChoose
   \<and> find_quit_event (rev (pygame_event_get (example_env [] 5 [] False))) = None
   \<and> find_choice_event (rev (pygame_event_get (example_env [] 5 [] False))) = None
   \<and> clock_check (example_env [] 5 [] False)
        < clock_entry (example_env [BUTTON_DOWN 11] 1 [] False) + 8
   \<and> (\<exists>a1 a2 a3. StateChoose_entry_actions ((example_app 1)\<lparr>active_state := Some StateChoose\<rparr>)
            (example_env [BUTTON_DOWN 11] 1 [] False) = Done a1
          \<and> loop a1 [example_env [] 5 [] False] = Running a2
          \<and> max_captures a2 = Some 1
          \<and> StateChoose_validate_transition a2 [] (example_env [] 5 [] False) = Inr None
          \<and> tick a2 (example_env [] 9 ''2018-01-01-10-00-09'' False) = Running a3
          \<and> active_state a3 = Some StateCapture \<and> max_captures a3 = Some 1)"
proof -
  let ?a = "(example_app 1)\<lparr>active_state := Some StateChoose\<rparr>"
  let ?e0 = "example_env [BUTTON_DOWN 11] 1 [] False"
  let ?e5 = "example_env [] 5 [] False"
  let ?e9 = "example_env [] 9 ''2018-01-01-10-00-09'' False"
  have h: "active_state ?a = Some StateChoose" by simp
  have q: "\<forall>e \<in> set [?e5]. find_quit_event (rev (pygame_event_get e)) = None
             \<and> find_choice_event (rev (pygame_event_get e)) = None
             \<and> clock_check e < clock_entry ?e0 + 8"
    by (simp add: example_env_def finder_defs)
  have c: "picture_captures (config ?a) = 1" by (simp add: example_defs)
  have e9: "find_quit_event (rev (pygame_event_get ?e9)) = None
                   \<and> find_choice_event (rev (pygame_event_get ?e9)) = None
                   \<and> clock_entry ?e0 + 8 \<le> clock_check ?e9 \<and> \<not> makedirs_fails ?e9"
    by (simp add: example_env_def finder_defs)
  have e5: "\<not> clock_entry ?e0 + 8 \<le> clock_check ?e5" by (simp add: example_env_def)
  from C8_choose_entry_and_timeout [OF h, of ?e0 "[?e5]"] q obtain a1 a2 where
    1: "StateChoose_entry_actions ?a ?e0 = Done a1" and 2: "loop a1 [?e5] = Running a2"
    and 3: "max_captures a2 = Some (picture_captures (config ?a))"
    and 4: "\<forall>events e. StateChoose_validate_transition a2 events e =
                   Inr (if clock_entry ?e0 + 8 \<le> clock_check e then Some ''capture'' else None)"
    and 5: "\<forall>e. find_quit_event (rev (pygame_event_get e)) = None
                   \<and> find_choice_event (rev (pygame_event_get e)) = None
                   \<and> clock_entry ?e0 + 8 \<le> clock_check e \<and> \<not> makedirs_fails e \<longrightarrow>
                   (\<exists>a3. tick a2 e = Running a3 \<and> active_state a3 = Some StateCapture
                      \<and> max_captures a3 = Some (picture_captures (config ?a)))"
    by blast
  from 5 e9 obtain a3 where 6: "tick a2 ?e9 = Running a3" "active_state a3 = Some StateCapture"
    "max_captures a3 = Some (picture_captures (config ?a))" by blast
  from 4 e5 have 7: "StateChoose_validate_transition a2 [] ?e5 = Inr None" by simp
  from q have q': "find_quit_event (rev (pygame_event_get ?e5)) = None"
    "find_choice_event (rev (pygame_event_get ?e5)) = None"
    "clock_check ?e5 < clock_entry ?e0 + 8"
    by simp_all
  from h q' 1 2 3 6 7 c show ?thesis by auto
qed

subsection \<open>The print state across cycles\<close>

text \<open>
  The print state while the flag is clear: without a print request the per-tick action
  does nothing and the transition check returns \<open>finish\<close> exactly when the clock is at
  least 5 after the start of the timer; a print request on a composed picture sets the
  flag, and the check that follows returns \<open>finish\<close>.
\<close>

lemma print_state_flag_clear:
  assumes "\<not> printed a" and "print_timer a = Some t0"
    and "find_print_event (ctrl_pressed e) events = None"
  shows "StatePrint_do_actions a events e = Done a
    \<and> StatePrint_validate_transition a events e =
        Inr (if t0 + 5 \<le> clock_check e then Some ''finish'' else None)"
  using assms by (auto simp: hook_defs StatePrint_timeout_def)

lemma print_state_print_request:
  assumes "find_print_event (ctrl_pressed e) events \<noteq> None" and "truthy (previous_picture_file a)"
    and "\<not> print_fails e" and "print_timer a = Some t0"
  shows "\<exists>a'. StatePrint_do_actions a events e = Done a' \<and> printed a'
    \<and> StatePrint_validate_transition a' events e = Inr (Some ''finish'')"
  using assms by (auto simp: hook_defs)

text \<open>
  C1 fails on an activation of the print state that follows one in which a print was
  made. In the run below the print button is pressed in the print state of the first
  cycle; in the second cycle the print state is entered at clock 30 and the next tick,
  at clock 31 and with no event at all, already leaves it for the finish state, four
  time units before the timer expires.
\<close>

theorem C1_stale_printed_flag:
  "active_state (app_of (main_loop (example_app 1) (example_startup True) example_print_ticks))
     = Some StatePrint
   \<and> print_timer (app_of (main_loop (example_app 1) (example_startup True) example_print_ticks))
     = Some 30
   \<and> find_print_event (ctrl_pressed example_idle_tick) (rev (pygame_event_get example_idle_tick)) = None
   \<and> clock_check example_idle_tick - 30 < StatePrint_timeout
   \<and> active_state (app_of (main_loop (example_app 1) (example_startup True)
        (example_print_ticks @ [example_idle_tick]))) = Some StateFinish"
  by (simp add: run_defs)

subsection \<open>The capture tick\<close>




subsection \<open>Trajectories and cycles without print\<close>

lemma tick_Running_process:
  assumes "tick a e = Running a'"
  shows "\<exists>ys. saves ys = 0 \<and> process (emit a ys) (rev (pygame_event_get e)) e = Done a'"
proof -
  have q: "find_quit_event (rev (pygame_event_get e)) = None"
    using assms by (cases "find_quit_event (rev (pygame_event_get e))") (simp_all add: tick_def)
  from tick_no_quit [OF q, of a] obtain ys where ys: "saves ys = 0"
    "tick a e = (case process (emit a ys) (rev (pygame_event_get e)) e of
        Done a3 \<Rightarrow> Running a3 | Raised x a3 \<Rightarrow> Failed x a3)" by blast
  from ys(2) assms have "process (emit a ys) (rev (pygame_event_get e)) e = Done a'"
    by (cases "process (emit a ys) (rev (pygame_event_get e)) e") simp_all
  with ys(1) show ?thesis by blast
qed

lemma process_choose_to_capture:
  assumes "active_state a = Some StateChoose" and "process a events e = Done a'"
    and "active_state a' = Some StateCapture"
  shows "captures a' = captures a \<and> dirname a' = Some (osp_join (savedir a) (strftime e))
    \<and> previous_picture a' = None \<and> previous_picture_file a' = None
    \<and> config a' = config a \<and> savedir a' = savedir a"
  using assms by (auto simp: process_def hook_defs split: if_splits option.splits sum.splits)

lemma process_capture_to_processing:
  assumes "active_state a = Some StateCapture" and "process a events e = Done a'"
    and "active_state a' = Some StateProcessing" and "dirname a = Some d"
  shows "captures a' = captures a @ [osp_join d (''ptb'' @ format_03 (length (captures a)) @ ''.jpg'')]
    \<and> previous_picture a' = Some (Picture
         (captures a @ [osp_join d (''ptb'' @ format_03 (length (captures a)) @ ''.jpg'')])
         [picture_footer_text1 (config a), picture_footer_text2 (config a)]
         (picture_bg_color (config a)) (picture_text_color (config a)))
    \<and> previous_picture_file a' = Some (osp_join d (strftime e @ ''_ptb.jpg''))
    \<and> config a' = config a \<and> savedir a' = savedir a"
  using assms by (auto simp: process_def hook_defs split: if_splits option.splits sum.splits)

lemma process_processing_to_finish:
  assumes "active_state a = Some StateProcessing" and "process a events e = Done a'"
    and "active_state a' = Some StateFinish"
  shows "captures a' = [] \<and> previous_picture a' = previous_picture a
    \<and> previous_picture_file a' = previous_picture_file a
    \<and> config a' = config a \<and> savedir a' = savedir a"
  using assms by (auto simp: process_def hook_defs split: if_splits option.splits sum.splits)

lemma process_finish_to_wait:
  assumes "active_state a = Some StateFinish" and "process a events e = Done a'"
  shows "active_state a' = Some StateWait \<and> captures a' = captures a
    \<and> previous_picture a' = previous_picture a
    \<and> previous_picture_file a' = previous_picture_file a
    \<and> config a' = config a \<and> savedir a' = savedir a"
  using assms by (auto simp: process_def hook_defs split: if_splits option.splits sum.splits)

lemma process_saves:
  assumes "process a events e = Done a'"
  shows "saves (trace a') =
     saves (trace a) + (if active_state a' = Some StateProcessing then 1 else 0)"
proof (cases "active_state a")
  case None
  with assms show ?thesis by (auto simp: process_def)
next
  case (Some s)
  with assms show ?thesis
    by (cases s) (auto simp: process_def hook_defs split: if_splits option.splits sum.splits)
qed

lemma tick_saves:
  assumes "tick a e = Running a'"
  shows "saves (trace a') =
     saves (trace a) + (if active_state a' = Some StateProcessing then 1 else 0)"
proof -
  from tick_Running_process [OF assms] obtain ys where ys: "saves ys = 0"
    "process (emit a ys) (rev (pygame_event_get e)) e = Done a'" by blast
  from process_saves [OF ys(2)] ys(1) show ?thesis by simp
qed

lemma loop_saves:
  "loop a es = Running a' \<Longrightarrow>
   saves (trace a') = saves (trace a) + count_list (trajectory a es) (Some StateProcessing)"
proof (induction es arbitrary: a)
  case Nil
  then show ?case by simp
next
  case (Cons e es)
  from Cons.prems obtain b where t: "tick a e = Running b" and l: "loop b es = Running a'"
    by (cases "tick a e") simp_all
  from tick_saves [OF t] Cons.IH [OF l] t show ?case by simp
qed

lemma process_idle_inv: "idle_inv cfg dir a \<Longrightarrow> idle_inv cfg dir (outcome_app (process a events e))"
proof (cases "active_state a")
  case None
  assume "idle_inv cfg dir a"
  with None show ?thesis by (simp add: process_def)
next
  case (Some s)
  assume "idle_inv cfg dir a"
  with Some show ?thesis
    by (cases s) (auto simp: process_def hook_defs idle_inv_def
          split: if_splits option.splits sum.splits)
qed

lemma idle_inv_emit: "idle_inv cfg dir a \<Longrightarrow> idle_inv cfg dir (emit a xs)"
  by (simp add: idle_inv_def)

lemma loop_idle_inv: "idle_inv cfg dir a \<Longrightarrow> idle_inv cfg dir (app_of (loop a es))"
  by (rule loop_preserves [where P = "idle_inv cfg dir"])
    (auto intro: process_idle_inv idle_inv_emit)


lemma trajectory_append:
  "trajectory a (xs @ ys) =
     trajectory a xs @ (case loop a xs of Running a' \<Rightarrow> trajectory a' ys
        | Stopped a' \<Rightarrow> [] | Failed x a' \<Rightarrow> [])"
  by (induction xs arbitrary: a) (auto split: loop_state.splits)

lemma length_trajectory: "length (trajectory a es) \<le> length es"
  by (induction es arbitrary: a) (auto split: loop_state.splits)

lemma trajectory_full:
  "length (trajectory a es) = length es \<Longrightarrow> \<exists>a'. loop a es = Running a'"
proof (induction es arbitrary: a)
  case Nil
  then show ?case by simp
next
  case (Cons e es)
  then show ?case by (cases "tick a e") auto
qed

lemma trajectory_split:
  assumes "trajectory a (xs @ ys) = T" and "length T = length xs + length ys"
  shows "\<exists>a'. loop a xs = Running a' \<and> trajectory a xs = take (length xs) T
     \<and> trajectory a' ys = drop (length xs) T"
proof -
  let ?r = "case loop a xs of Running a' \<Rightarrow> trajectory a' ys
        | Stopped a' \<Rightarrow> [] | Failed x a' \<Rightarrow> []"
  have T: "T = trajectory a xs @ ?r" using assms(1) by (simp add: trajectory_append)
  have r: "length ?r \<le> length ys"
    by (cases "loop a xs") (simp_all add: length_trajectory)
  have x: "length (trajectory a xs) \<le> length xs" by (rule length_trajectory)
  from T assms(2) have "length (trajectory a xs) + length ?r = length xs + length ys" by simp
  with r x have len: "length (trajectory a xs) = length xs" by linarith
  then obtain a' where a': "loop a xs = Running a'" using trajectory_full by blast
  from T len a' have "trajectory a xs = take (length xs) T" "trajectory a' ys = drop (length xs) T"
    by simp_all
  with a' show ?thesis by blast
qed

lemma trajectory_single:
  assumes "trajectory a (e # es) = s # T"
  shows "\<exists>a'. tick a e = Running a' \<and> active_state a' = s \<and> trajectory a' es = T"
  using assms by (cases "tick a e") simp_all

lemma trajectory_last:
  "loop a xs = Running a' \<Longrightarrow> xs \<noteq> [] \<Longrightarrow> active_state a' = last (trajectory a xs)"
proof (induction xs arbitrary: a)
  case Nil
  then show ?case by simp
next
  case (Cons e es)
  from Cons.prems obtain b where t: "tick a e = Running b" and l: "loop b es = Running a'"
    by (cases "tick a e") simp_all
  show ?case
  proof (cases "es = []")
    case True
    with t l show ?thesis by simp
  next
    case False
    from Cons.IH [OF l False] t l False show ?thesis
      by (cases es) (auto split: loop_state.splits)
  qed
qed

lemma tick_entered_capture:
  assumes "active_state a = Some StateChoose" and "tick a e = Running a'"
    and "active_state a' = Some StateCapture"
  shows "captures a' = captures a \<and> dirname a' = Some (osp_join (savedir a) (strftime e))
    \<and> previous_picture a' = None \<and> previous_picture_file a' = None
    \<and> config a' = config a \<and> savedir a' = savedir a"
proof -
  from tick_Running_process [OF assms(2)] obtain ys where
    "process (emit a ys) (rev (pygame_event_get e)) e = Done a'" by blast
  from process_choose_to_capture [OF _ this assms(3)] assms(1) show ?thesis by simp
qed

lemma tick_entered_processing:
  assumes "active_state a = Some StateCapture" and "tick a e = Running a'"
    and "active_state a' = Some StateProcessing" and "dirname a = Some d"
  shows "captures a' = captures a @ [osp_join d (''ptb'' @ format_03 (length (captures a)) @ ''.jpg'')]
    \<and> previous_picture a' = Some (Picture
         (captures a @ [osp_join d (''ptb'' @ format_03 (length (captures a)) @ ''.jpg'')])
         [picture_footer_text1 (config a), picture_footer_text2 (config a)]
         (picture_bg_color (config a)) (picture_text_color (config a)))
    \<and> previous_picture_file a' = Some (osp_join d (strftime e @ ''_ptb.jpg''))
    \<and> config a' = config a \<and> savedir a' = savedir a"
proof -
  from tick_Running_process [OF assms(2)] obtain ys where
    "process (emit a ys) (rev (pygame_event_get e)) e = Done a'" by blast
  from process_capture_to_processing [OF _ this assms(3), of d] assms(1) assms(4)
  show ?thesis by simp
qed

lemma tick_entered_finish:
  assumes "active_state a = Some StateProcessing" and "tick a e = Running a'"
    and "active_state a' = Some StateFinish"
  shows "captures a' = [] \<and> previous_picture a' = previous_picture a
    \<and> previous_picture_file a' = previous_picture_file a
    \<and> config a' = config a \<and> savedir a' = savedir a"
proof -
  from tick_Running_process [OF assms(2)] obtain ys where
    "process (emit a ys) (rev (pygame_event_get e)) e = Done a'" by blast
  from process_processing_to_finish [OF _ this assms(3)] assms(1) show ?thesis by simp
qed

lemma tick_left_finish:
  assumes "active_state a = Some StateFinish" and "tick a e = Running a'"
  shows "active_state a' = Some StateWait \<and> captures a' = captures a
    \<and> previous_picture a' = previous_picture a
    \<and> previous_picture_file a' = previous_picture_file a
    \<and> config a' = config a \<and> savedir a' = savedir a"
proof -
  from tick_Running_process [OF assms(2)] obtain ys where
    "process (emit a ys) (rev (pygame_event_get e)) e = Done a'" by blast
  from process_finish_to_wait [OF _ this] assms(1) show ?thesis by simp
qed

lemma count_list_replicate_other: "x \<noteq> y \<Longrightarrow> count_list (replicate n x) y = 0"
  by (induction n) simp_all

lemma length_cycle_pattern: "length (cycle_pattern i j) = i + Suc j + 4"
  by (simp add: cycle_pattern_def)

lemma count_cycle_pattern: "count_list (cycle_pattern i j) (Some StateProcessing) = 1"
  by (simp add: cycle_pattern_def count_list_replicate_other)

lemma cycle_run:
  assumes inv: "idle_inv cfg dir a"
    and traj: "trajectory a (pre @ [c, k, p, f]) = cycle_pattern i j"
    and len: "length pre = i + Suc j"
  shows "\<exists>a2 a'. loop a (pre @ [c]) = Running a2 \<and> active_state a2 = Some StateCapture
       \<and> previous_picture a2 = None \<and> previous_picture_file a2 = None
       \<and> loop a (pre @ [c, k, p, f]) = Running a' \<and> idle_inv cfg dir a'
       \<and> active_state a' = Some StateWait \<and> captures a' = []
       \<and> previous_picture a' = Some (Picture
            [osp_join (osp_join dir (strftime c)) ''ptb000.jpg'']
            [picture_footer_text1 cfg, picture_footer_text2 cfg]
            (picture_bg_color cfg) (picture_text_color cfg))
       \<and> previous_picture_file a' =
            Some (osp_join (osp_join dir (strftime c)) (strftime k @ ''_ptb.jpg''))
       \<and> saves (trace a') = saves (trace a) + 1"
proof -
  have lenT: "length (cycle_pattern i j) = length pre + length [c, k, p, f]"
    using len by (simp add: length_cycle_pattern)
  from trajectory_split [OF traj lenT] obtain b where b: "loop a pre = Running b"
    and tp: "trajectory a pre = take (length pre) (cycle_pattern i j)"
    and tb: "trajectory b [c, k, p, f] = drop (length pre) (cycle_pattern i j)"
    by blast
  have tp': "trajectory a pre = replicate i (Some StateWait) @ replicate (Suc j) (Some StateChoose)"
    using tp len by (simp add: cycle_pattern_def)
  have tb': "trajectory b [c, k, p, f] =
      [Some StateCapture, Some StateProcessing, Some StateFinish, Some StateWait]"
    using tb len by (simp add: cycle_pattern_def)
  have ne: "pre \<noteq> []" using len by auto
  have "last (trajectory a pre) = Some StateChoose" unfolding tp' by simp
  with trajectory_last [OF b ne] have sb: "active_state b = Some StateChoose" by simp
  from loop_idle_inv [OF inv, of pre] b have ib: "idle_inv cfg dir b" by simp
  with sb have fb: "captures b = []" "config b = cfg" "savedir b = dir"
    by (simp_all add: idle_inv_def)
  from trajectory_single [OF tb'] obtain b1 where b1: "tick b c = Running b1"
    "active_state b1 = Some StateCapture"
    "trajectory b1 [k, p, f] = [Some StateProcessing, Some StateFinish, Some StateWait]" by blast
  from trajectory_single [OF b1(3)] obtain b2 where b2: "tick b1 k = Running b2"
    "active_state b2 = Some StateProcessing"
    "trajectory b2 [p, f] = [Some StateFinish, Some StateWait]" by blast
  from trajectory_single [OF b2(3)] obtain b3 where b3: "tick b2 p = Running b3"
    "active_state b3 = Some StateFinish"
    "trajectory b3 [f] = [Some StateWait]" by blast
  from trajectory_single [OF b3(3)] obtain b4 where b4: "tick b3 f = Running b4"
    "active_state b4 = Some StateWait" by blast
  from tick_entered_capture [OF sb b1(1) b1(2)] fb
  have f1: "captures b1 = []" "dirname b1 = Some (osp_join dir (strftime c))"
    "previous_picture b1 = None" "previous_picture_file b1 = None"
    "config b1 = cfg" "savedir b1 = dir" by simp_all
  from tick_entered_processing [OF b1(2) b2(1) b2(2) f1(2)] f1
  have f2: "previous_picture b2 = Some (Picture
            [osp_join (osp_join dir (strftime c)) ''ptb000.jpg'']
            [picture_footer_text1 cfg, picture_footer_text2 cfg]
            (picture_bg_color cfg) (picture_text_color cfg))"
    "previous_picture_file b2 =
            Some (osp_join (osp_join dir (strftime c)) (strftime k @ ''_ptb.jpg''))"
    by (simp_all add: format_03_examples)
  from tick_entered_finish [OF b2(2) b3(1) b3(2)] f2
  have f3: "captures b3 = []" "previous_picture b3 = previous_picture b2"
    "previous_picture_file b3 = previous_picture_file b2" by simp_all
  from tick_left_finish [OF b3(2) b4(1)] f3
  have f4: "captures b4 = []" "previous_picture b4 = previous_picture b2"
    "previous_picture_file b4 = previous_picture_file b2" by simp_all
  have l1: "loop a (pre @ [c]) = Running b1" using b b1(1) by (simp add: loop_append)
  have l4: "loop a (pre @ [c, k, p, f]) = Running b4"
    using b b1(1) b2(1) b3(1) b4(1) by (simp add: loop_append)
  from loop_saves [OF l4] traj have sv: "saves (trace b4) = saves (trace a) + 1"
    by (simp add: count_cycle_pattern)
  from loop_idle_inv [OF inv, of "pre @ [c, k, p, f]"] l4 have i4: "idle_inv cfg dir b4" by simp
  from l1 l4 b1(2) f1(3) f1(4) i4 b4(2) f4 f2 sv show ?thesis by simp
qed

text \<open>
  C5: let \<open>main_loop\<close> on a fresh application run through the cycle wait, choose, capture
  (one shot), processing, finish, wait twice, with any number of ticks spent in wait and
  in choose; \<open>c\<close>, \<open>k\<close>, \<open>p\<close>, \<open>f\<close> are the ticks of each cycle that enter capture,
  processing, finish and wait. Then the loop is running in the wait state with
  \<open>captures\<close> empty and with the composed picture and its path being those of the second
  cycle: the picture composed from the single capture in the second cycle directory,
  saved under that directory. After the first cycle they are those of the first cycle;
  on entry to the capture state in the second cycle both are \<open>None\<close>, as after every
  run of the entry hook of the capture state; and the composed picture has been saved
  once after one cycle and twice after two.
\<close>

theorem C5_two_cycles:
  assumes traj: "main_trajectory (PtbApplication_init cfg dir) e0
        (pre1 @ [c1, k1, p1, f1] @ pre2 @ [c2, k2, p2, f2])
      = cycle_pattern i1 j1 @ cycle_pattern i2 j2"
    and len1: "length pre1 = i1 + Suc j1" and len2: "length pre2 = i2 + Suc j2"
  shows "(\<exists>a1 a2 a3.
        main_loop (PtbApplication_init cfg dir) e0 (pre1 @ [c1, k1, p1, f1]) = Running a1
      \<and> captures a1 = []
      \<and> previous_picture_file a1 =
          Some (osp_join (osp_join dir (strftime c1)) (strftime k1 @ ''_ptb.jpg''))
      \<and> saves (trace a1) = 1
      \<and> main_loop (PtbApplication_init cfg dir) e0 (pre1 @ [c1, k1, p1, f1] @ pre2 @ [c2])
          = Running a2
      \<and> active_state a2 = Some StateCapture
      \<and> previous_picture a2 = None \<and> previous_picture_file a2 = None
      \<and> main_loop (PtbApplication_init cfg dir) e0
            (pre1 @ [c1, k1, p1, f1] @ pre2 @ [c2, k2, p2, f2])
          = Running a3
      \<and> active_state a3 = Some StateWait
      \<and> captures a3 = []
      \<and> previous_picture a3 = Some (Picture
            [osp_join (osp_join dir (strftime c2)) ''ptb000.jpg'']
            [picture_footer_text1 cfg, picture_footer_text2 cfg]
            (picture_bg_color cfg) (picture_text_color cfg))
      \<and> previous_picture_file a3 =
          Some (osp_join (osp_join dir (strftime c2)) (strftime k2 @ ''_ptb.jpg''))
      \<and> truthy (previous_picture_file a3)
      \<and> saves (trace a3) = 2)
    \<and> previous_picture (outcome_app (StateCapture_entry_actions a e)) = None
    \<and> previous_picture_file (outcome_app (StateCapture_entry_actions a e)) = None"
proof (intro conjI)
  let ?i = "PtbApplication_init cfg dir"
  let ?a0 = "emit (?i\<lparr>active_state := Some StateWait\<rparr>) [Show_intro (previous_picture ?i)]"
  let ?es1 = "pre1 @ [c1, k1, p1, f1]"
  let ?es2 = "pre2 @ [c2, k2, p2, f2]"
  let ?T = "cycle_pattern i1 j1 @ cycle_pattern i2 j2"
  have inv0: "idle_inv cfg dir ?a0" and s0: "saves (trace ?a0) = 0"
    by (simp_all add: idle_inv_def PtbApplication_init_def)
  have t: "trajectory ?a0 (?es1 @ ?es2) = ?T"
    using traj by (simp add: main_trajectory_def set_state_wait)
  have lenT: "length ?T = length ?es1 + length ?es2"
    using len1 len2 by (simp add: length_cycle_pattern)
  have l1: "length ?es1 = length (cycle_pattern i1 j1)"
    using len1 by (simp add: length_cycle_pattern)
  from trajectory_split [OF t lenT] obtain b where b: "loop ?a0 ?es1 = Running b"
    and t1: "trajectory ?a0 ?es1 = take (length ?es1) ?T"
    and t2: "trajectory b ?es2 = drop (length ?es1) ?T"
    by blast
  from t1 l1 have t1': "trajectory ?a0 ?es1 = cycle_pattern i1 j1" by simp
  from t2 l1 have t2': "trajectory b ?es2 = cycle_pattern i2 j2" by simp
  from cycle_run [OF inv0 t1' len1] b s0 have a1: "idle_inv cfg dir b" "captures b = []"
    "previous_picture_file b =
          Some (osp_join (osp_join dir (strftime c1)) (strftime k1 @ ''_ptb.jpg''))"
    "saves (trace b) = 1"
    by auto
  from cycle_run [OF a1(1) t2' len2] a1(4) obtain a2 a3 where
    l2: "loop b (pre2 @ [c2]) = Running a2" and a2: "active_state a2 = Some StateCapture"
      "previous_picture a2 = None" "previous_picture_file a2 = None"
    and l3: "loop b ?es2 = Running a3" and a3: "active_state a3 = Some StateWait"
      "captures a3 = []"
      "previous_picture a3 = Some (Picture
            [osp_join (osp_join dir (strftime c2)) ''ptb000.jpg'']
            [picture_footer_text1 cfg, picture_footer_text2 cfg]
            (picture_bg_color cfg) (picture_text_color cfg))"
      "previous_picture_file a3 =
          Some (osp_join (osp_join dir (strftime c2)) (strftime k2 @ ''_ptb.jpg''))"
      "saves (trace a3) = 2"
    by auto
  have m1: "main_loop ?i e0 ?es1 = Running b"
    using b by (simp only: main_loop_eq try_finally.simps)
  have "loop ?a0 (?es1 @ (pre2 @ [c2])) = Running a2"
    by (simp only: loop_append [of ?a0 ?es1 "pre2 @ [c2]"] b l2 loop_state.case)
  then have m2: "main_loop ?i e0 (pre1 @ [c1, k1, p1, f1] @ pre2 @ [c2]) = Running a2"
    by (simp add: main_loop_eq)
  have "loop ?a0 (?es1 @ ?es2) = Running a3"
    by (simp only: loop_append [of ?a0 ?es1 ?es2] b l3 loop_state.case)
  then have m3: "main_loop ?i e0 (pre1 @ [c1, k1, p1, f1] @ pre2 @ [c2, k2, p2, f2]) = Running a3"
    by (simp add: main_loop_eq)
  have tr: "truthy (previous_picture_file a3)" using a3(4) by simp
  from m1 m2 m3 a1 a2 a3 tr show "\<exists>a1 a2 a3.
        main_loop (PtbApplication_init cfg dir) e0 (pre1 @ [c1, k1, p1, f1]) = Running a1
      \<and> captures a1 = []
      \<and> previous_picture_file a1 =
          Some (osp_join (osp_join dir (strftime c1)) (strftime k1 @ ''_ptb.jpg''))
      \<and> saves (trace a1) = 1
      \<and> main_loop (PtbApplication_init cfg dir) e0 (pre1 @ [c1, k1, p1, f1] @ pre2 @ [c2])
          = Running a2
      \<and> active_state a2 = Some StateCapture
      \<and> previous_picture a2 = None \<and> previous_picture_file a2 = None
      \<and> main_loop (PtbApplication_init cfg dir) e0
            (pre1 @ [c1, k1, p1, f1] @ pre2 @ [c2, k2, p2, f2])
          = Running a3
      \<and> active_state a3 = Some StateWait
      \<and> captures a3 = []
      \<and> previous_picture a3 = Some (Picture
            [osp_join (osp_join dir (strftime c2)) ''ptb000.jpg'']
            [picture_footer_text1 cfg, picture_footer_text2 cfg]
            (picture_bg_color cfg) (picture_text_color cfg))
      \<and> previous_picture_file a3 =
          Some (osp_join (osp_join dir (strftime c2)) (strftime k2 @ ''_ptb.jpg''))
      \<and> truthy (previous_picture_file a3)
      \<and> saves (trace a3) = 2"
    by blast
next
  show "previous_picture (outcome_app (StateCapture_entry_actions a e)) = None"
    by (simp add: StateCapture_entry_actions_def Let_def)
  show "previous_picture_file (outcome_app (StateCapture_entry_actions a e)) = None"
    by (simp add: StateCapture_entry_actions_def Let_def)
qed

theorem C5_two_cycles_witness:
  "main_trajectory (PtbApplication_init (example_config 1) ''/home/pi/Pictures'')
      (example_startup False)
      ([example_env [] 1 ''2018-01-01-10-00-01'' False,
        example_env [BUTTON_DOWN 11] 2 ''2018-01-01-10-00-02'' False,
        example_env [] 5 ''2018-01-01-10-00-05'' False]
       @ [example_env [] 10 ''2018-01-01-10-00-10'' False,
          example_env [] 11 ''2018-01-01-10-00-11'' False,
          example_env [] 12 ''2018-01-01-10-00-12'' False,
          example_env [] 13 ''2018-01-01-10-00-13'' False]
       @ [example_env [KEYDOWN K_p] 20 ''2018-01-01-10-00-20'' False]
       @ [example_env [] 28 ''2018-01-01-10-00-28'' False,
          example_env [] 29 ''2018-01-01-10-00-29'' False,
          example_env [] 30 ''2018-01-01-10-00-30'' False,
          example_env [] 31 ''2018-01-01-10-00-31'' False])
     = cycle_pattern 1 1 @ cycle_pattern 0 0
   \<and> (\<exists>a3. main_loop (PtbApplication_init (example_config 1) ''/home/pi/Pictures'')
          (example_startup False)
          ([example_env [] 1 ''2018-01-01-10-00-01'' False,
            example_env [BUTTON_DOWN 11] 2 ''2018-01-01-10-00-02'' False,
            example_env [] 5 ''2018-01-01-10-00-05'' False]
           @ [example_env [] 10 ''2018-01-01-10-00-10'' False,
              example_env [] 11 ''2018-01-01-10-00-11'' False,
              example_env [] 12 ''2018-01-01-10-00-12'' False,
              example_env [] 13 ''2018-01-01-10-00-13'' False]
           @ [example_env [KEYDOWN K_p] 20 ''2018-01-01-10-00-20'' False]
           @ [example_env [] 28 ''2018-01-01-10-00-28'' False,
              example_env [] 29 ''2018-01-01-10-00-29'' False,
              example_env [] 30 ''2018-01-01-10-00-30'' False,
              example_env [] 31 ''2018-01-01-10-00-31'' False]) = Running a3
        \<and> active_state a3 = Some StateWait
        \<and> captures a3 = []
        \<and> previous_picture_file a3 =
            Some ''/home/pi/Pictures/2018-01-01-10-00-28/2018-01-01-10-00-29_ptb.jpg''
        \<and> saves (trace a3) = 2)"
proof -
  let ?pre1 = "[example_env [] 1 ''2018-01-01-10-00-01'' False,
        example_env [BUTTON_DOWN 11] 2 ''2018-01-01-10-00-02'' False,
        example_env [] 5 ''2018-01-01-10-00-05'' False]"
  let ?pre2 = "[example_env [KEYDOWN K_p] 20 ''2018-01-01-10-00-20'' False]"
  let ?c1 = "example_env [] 10 ''2018-01-01-10-00-10'' False"
  let ?k1 = "example_env [] 11 ''2018-01-01-10-00-11'' False"
  let ?p1 = "example_env [] 12 ''2018-01-01-10-00-12'' False"
  let ?f1 = "example_env [] 13 ''2018-01-01-10-00-13'' False"
  let ?c2 = "example_env [] 28 ''2018-01-01-10-00-28'' False"
  let ?k2 = "example_env [] 29 ''2018-01-01-10-00-29'' False"
  let ?p2 = "example_env [] 30 ''2018-01-01-10-00-30'' False"
  let ?f2 = "example_env [] 31 ''2018-01-01-10-00-31'' False"
  have t: "main_trajectory (PtbApplication_init (example_config 1) ''/home/pi/Pictures'')
      (example_startup False) (?pre1 @ [?c1, ?k1, ?p1, ?f1] @ ?pre2 @ [?c2, ?k2, ?p2, ?f2])
     = cycle_pattern 1 1 @ cycle_pattern 0 0"
    by (simp add: main_trajectory_def cycle_pattern_def run_defs)
  have l1: "length ?pre1 = 1 + Suc 1" and l2: "length ?pre2 = 0 + Suc 0" by simp_all
  have j: "osp_join (osp_join ''/home/pi/Pictures'' (strftime ?c2)) (strftime ?k2 @ ''_ptb.jpg'')
           = ''/home/pi/Pictures/2018-01-01-10-00-28/2018-01-01-10-00-29_ptb.jpg''"
    by (simp add: osp_join_def example_env_def)
  from C5_two_cycles [OF t l1 l2]
  obtain a3 where "main_loop (PtbApplication_init (example_config 1) ''/home/pi/Pictures'')
          (example_startup False) (?pre1 @ [?c1, ?k1, ?p1, ?f1] @ ?pre2 @ [?c2, ?k2, ?p2, ?f2])
          = Running a3"
    "active_state a3 = Some StateWait"
    "captures a3 = []"
    "previous_picture_file a3 =
       Some (osp_join (osp_join ''/home/pi/Pictures'' (strftime ?c2)) (strftime ?k2 @ ''_ptb.jpg''))"
    "saves (trace a3) = 2"
    by blast
  with t j show ?thesis by simp
qed

end
